theory Spec2Isabelle
  imports Main "HOL-Library.AList"
begin

section \<open>Text\<close>

text \<open>
  A Python \<^verbatim>\<open>str\<close> is modelled as a \<^typ>\<open>string\<close> with one \<^typ>\<open>char\<close> per code
  point, so the model covers the code points below 256. The character classes are
  those of Python on that range: \<^verbatim>\<open>str.isspace\<close> (also the class \<^verbatim>\<open>\s\<close> of
  \<^verbatim>\<open>re\<close> on a \<^verbatim>\<open>str\<close> pattern), the decimal digits (the class \<^verbatim>\<open>\d\<close>, and the
  digits \<^verbatim>\<open>int()\<close> accepts) and \<^verbatim>\<open>str.isdigit\<close>, which also accepts the
  superscript digits U+00B2, U+00B3 and U+00B9.
\<close>

definition isspace :: "char \<Rightarrow> bool" where
  "isspace c = (let n = (of_char c :: nat) in
     (9 \<le> n \<and> n \<le> 13) \<or> (28 \<le> n \<and> n \<le> 32) \<or> n = 133 \<or> n = 160)"

definition isdecimal :: "char \<Rightarrow> bool" where
  "isdecimal c = (let n = (of_char c :: nat) in 48 \<le> n \<and> n \<le> 57)"

definition isdigit_char :: "char \<Rightarrow> bool" where
  "isdigit_char c = (let n = (of_char c :: nat) in
     (48 \<le> n \<and> n \<le> 57) \<or> n = 178 \<or> n = 179 \<or> n = 185)"

text \<open>\<^verbatim>\<open>s.isdigit()\<close>: every character is a digit and there is at least one.\<close>

definition isdigit :: "string \<Rightarrow> bool" where
  "isdigit s = (s \<noteq> [] \<and> list_all isdigit_char s)"

text \<open>
  \<^verbatim>\<open>s.lower()\<close> and \<^verbatim>\<open>s.upper()\<close>. The upper-case forms of U+00B5 and U+00FF lie
  above code point 255; the model leaves these two characters unchanged (neither
  form is an ASCII letter, so comparisons with ASCII text are not affected).
\<close>

definition lower_char :: "char \<Rightarrow> char" where
  "lower_char c = (let n = (of_char c :: nat) in
     if (65 \<le> n \<and> n \<le> 90) \<or> (192 \<le> n \<and> n \<le> 222 \<and> n \<noteq> 215)
     then char_of (n + 32) else c)"

definition lower :: "string \<Rightarrow> string" where
  "lower s = map lower_char s"

definition upper_char :: "char \<Rightarrow> string" where
  "upper_char c = (let n = (of_char c :: nat) in
     if (97 \<le> n \<and> n \<le> 122) \<or> (224 \<le> n \<and> n \<le> 254 \<and> n \<noteq> 247)
     then [char_of (n - 32)]
     else if n = 223 then ''SS'' else [c])"

definition upper :: "string \<Rightarrow> string" where
  "upper s = concat (map upper_char s)"

text \<open>\<^verbatim>\<open>s.strip()\<close> removes the white space at both ends.\<close>

definition strip :: "string \<Rightarrow> string" where
  "strip s = rev (dropWhile isspace (rev (dropWhile isspace s)))"

text \<open>\<^verbatim>\<open>re.sub(r"\s+", " ", s)\<close>: every maximal run of white space becomes one space.\<close>

function collapse_ws :: "string \<Rightarrow> string" where
  "collapse_ws [] = []"
| "collapse_ws (c # cs) =
     (if isspace c then CHR '' '' # collapse_ws (dropWhile isspace cs)
      else c # collapse_ws cs)"
  by pat_completeness auto
termination
  by (relation "measure length") (auto simp: length_dropWhile_le less_Suc_eq_le)

section \<open>utils.py: normalisation of cell values\<close>

text \<open>
  The argument of \<^verbatim>\<open>norm_space\<close> is any object. The function tells four cases
  apart: \<^verbatim>\<open>None\<close>, a float that is NaN, a \<^verbatim>\<open>str\<close>, and any other object, which it
  reads through \<^verbatim>\<open>str(value)\<close>; \<open>PyOther\<close> carries that rendering.
\<close>

datatype pyobj = PyNone | PyNaN | PyStr string | PyOther string

fun norm_space :: "pyobj \<Rightarrow> string" where
  "norm_space PyNone = []"
| "norm_space PyNaN = []"
| "norm_space (PyStr s) = strip (collapse_ws s)"
| "norm_space (PyOther s) = strip (collapse_ws s)"

definition nonempty :: "pyobj \<Rightarrow> bool" where
  "nonempty v = (norm_space v \<noteq> [])"

text \<open>\<^verbatim>\<open>"".join(re.findall(r"\d", norm_space(value)))\<close>\<close>

definition norm_phone :: "pyobj \<Rightarrow> string" where
  "norm_phone v = filter isdecimal (norm_space v)"

text \<open>The text an object is read as: empty for \<^verbatim>\<open>None\<close> and NaN.\<close>

fun str_of :: "pyobj \<Rightarrow> string" where
  "str_of PyNone = []"
| "str_of PyNaN = []"
| "str_of (PyStr s) = s"
| "str_of (PyOther s) = s"

text \<open>\<^verbatim>\<open>str(n)\<close> for an integer.\<close>

fun digits_of :: "nat \<Rightarrow> string" where
  "digits_of n =
     (if n < 10 then [char_of (48 + n)]
      else digits_of (n div 10) @ [char_of (48 + n mod 10)])"

declare digits_of.simps [simp del]

definition str_int :: "int \<Rightarrow> string" where
  "str_int i = (if i < 0 then CHR ''-'' # digits_of (nat (- i)) else digits_of (nat i))"

section \<open>loader.py: status normalisation\<close>

text \<open>The two tables are dictionaries with distinct keys, written as association lists.\<close>

definition STATUS_NORMALIZATION :: "(string \<times> string) list" where
  "STATUS_NORMALIZATION =
     [(''aktif nonrespons'', ''Aktif Nonrespon''),
      (''belum berproduksi'', ''Belum Beroperasi/Berproduksi'')]"

definition STATUS_NUMERIC_MAP :: "(string \<times> string) list" where
  "STATUS_NUMERIC_MAP =
     [(''1'', ''Aktif''),
      (''2'', ''Tutup Sementara''),
      (''3'', ''Belum Beroperasi/Berproduksi''),
      (''4'', ''Tutup''),
      (''5'', ''Alih Usaha''),
      (''6'', ''Tidak Ditemukan''),
      (''7'', ''Aktif Pindah''),
      (''8'', ''Aktif Nonrespon''),
      (''9'', ''Duplikat''),
      (''10'', ''Salah Kode Wilayah''),
      (''11'', ''Salah Kode Wilayah'')]"

text \<open>
  \<^verbatim>\<open>_normalize_status\<close>: the empty status stays empty; a digit string is looked up,
  stripped, in the numeric table, and a non-empty label found there is returned;
  everything else goes through the alias table under its lower-case form.
\<close>

definition normalize_status :: "string \<Rightarrow> string" where
  "normalize_status status =
     (if status = [] then []
      else
        let fallback = (case map_of STATUS_NORMALIZATION (lower status) of
                          Some canon \<Rightarrow> canon | None \<Rightarrow> status)
        in if isdigit status
           then (case map_of STATUS_NUMERIC_MAP (strip status) of
                   Some mapped \<Rightarrow> if mapped \<noteq> [] then mapped else fallback
                 | None \<Rightarrow> fallback)
           else fallback)"

section \<open>utils.py: the retry helper\<close>

text \<open>
  The operation \<^verbatim>\<open>fn\<close> is a coroutine with effects: a function from the state of
  the world to its outcome and the next state. An outcome is a returned value or a
  raised \<^verbatim>\<open>Exception\<close>, the class \<^verbatim>\<open>with_retry\<close> catches.
\<close>

datatype ('e, 'a) outcome = Raises 'e | Returns 'a

type_synonym ('s, 'e, 'a) coroutine = "'s \<Rightarrow> ('e, 'a) outcome \<times> 's"

text \<open>
  After the loop: \<^verbatim>\<open>if last_exc: raise last_exc\<close> (an exception object is true),
  else the function ends and returns \<^verbatim>\<open>None\<close>.
\<close>

definition after_loop :: "'e option \<Rightarrow> ('e, 'a option) outcome" where
  "after_loop last_exc = (case last_exc of Some exc \<Rightarrow> Raises exc | None \<Rightarrow> Returns None)"

text \<open>
  \<^verbatim>\<open>for i in range(attempts)\<close>: \<open>k\<close> counts the iterations that remain and \<open>i\<close>
  is the loop variable. A return leaves the function, a raise is remembered; the
  loop breaks on the last index and otherwise sleeps (time only) and goes on.
\<close>

fun retry_loop ::
  "('s, 'e, 'a) coroutine \<Rightarrow> int \<Rightarrow> nat \<Rightarrow> int \<Rightarrow> 'e option \<Rightarrow> 's
     \<Rightarrow> ('e, 'a option) outcome \<times> 's" where
  "retry_loop fn attempts 0 i last_exc s = (after_loop last_exc, s)"
| "retry_loop fn attempts (Suc k) i last_exc s =
     (case fn s of
        (Returns v, s') \<Rightarrow> (Returns (Some v), s')
      | (Raises exc, s') \<Rightarrow>
          if i = attempts - 1 then (after_loop (Some exc), s')
          else retry_loop fn attempts k (i + 1) (Some exc) s')"

definition with_retry ::
  "('s, 'e, 'a) coroutine \<Rightarrow> int \<Rightarrow> 's \<Rightarrow> ('e, 'a option) outcome \<times> 's" where
  "with_retry fn attempts s = retry_loop fn attempts (nat attempts) 0 None s"



definition failing :: "(nat, nat, string) coroutine" where
  "failing n = (Raises (Suc n), Suc n)"

section \<open>utils.py: numbers in text\<close>

text \<open>
  \<^verbatim>\<open>norm_float\<close> searches the normalised text, commas turned into periods, for the
  leftmost match of \<^verbatim>\<open>-?\d+(?:\.\d+)?\<close>. \<open>number_at\<close> is the greedy match of
  \<^verbatim>\<open>\d+(?:\.\d+)?\<close> at the head of a text that starts with a digit.
\<close>

definition number_at :: "string \<Rightarrow> string" where
  "number_at s =
     (let ds = takeWhile isdecimal s in
      case dropWhile isdecimal s of
        c # d # r \<Rightarrow>
          if c = CHR ''.'' \<and> isdecimal d then ds @ c # takeWhile isdecimal (d # r) else ds
      | _ \<Rightarrow> ds)"

fun search_float :: "string \<Rightarrow> string option" where
  "search_float [] = None"
| "search_float [c] = (if isdecimal c then Some [c] else None)"
| "search_float (c # d # cs) =
     (if isdecimal c then Some (number_at (c # d # cs))
      else if c = CHR ''-'' \<and> isdecimal d then Some (c # number_at (d # cs))
      else search_float (d # cs))"

definition norm_float :: "pyobj \<Rightarrow> string" where
  "norm_float v =
     (case search_float (map (\<lambda>c. if c = CHR '','' then CHR ''.'' else c) (norm_space v)) of
        Some m \<Rightarrow> m
      | None \<Rightarrow> [])"

section \<open>excel_loader.py: the dataframe and its columns\<close>

text \<open>
  The workbook is read by pandas with \<^verbatim>\<open>dtype=str\<close>: a cell is a string, or NaN
  where the sheet is empty. A row is a map from column names to cells, and
  \<^verbatim>\<open>df_row.get(column)\<close> is \<^verbatim>\<open>None\<close> for a column the sheet does not have. Reading
  the workbook itself (\<^verbatim>\<open>load_dataframe\<close>) is outside the model: the dataframe is
  the input.
\<close>

datatype cell = NaN | Str string

type_synonym df_row = "string \<rightharpoonup> cell"

record dataframe =
  columns :: "string list"
  rows :: "df_row list"

fun obj_of :: "cell option \<Rightarrow> pyobj" where
  "obj_of None = PyNone"
| "obj_of (Some NaN) = PyNaN"
| "obj_of (Some (Str s)) = PyStr s"

text \<open>
  Python's \<^verbatim>\<open>a or b\<close> on two looked-up cells: \<^verbatim>\<open>None\<close> and the empty string are
  false, a non-empty string is true, and so is NaN (a non-zero float).
\<close>

fun truthy :: "cell option \<Rightarrow> bool" where
  "truthy None = False"
| "truthy (Some NaN) = True"
| "truthy (Some (Str s)) = (s \<noteq> [])"

definition py_or :: "cell option \<Rightarrow> cell option \<Rightarrow> cell option" where
  "py_or a b = (if truthy a then a else b)"

text \<open>\<^verbatim>\<open>sep.join(xs)\<close>\<close>

fun join :: "string \<Rightarrow> string list \<Rightarrow> string" where
  "join sep [] = []"
| "join sep [x] = x"
| "join sep (x # y # ys) = x @ sep @ join sep (y # ys)"

definition REQUIRED_COLUMNS_AUTOFILL :: "string list" where
  "REQUIRED_COLUMNS_AUTOFILL = [''status'', ''email'', ''sumber'', ''catatan'']"

definition COLUMN_ALIASES :: "(string \<times> string list) list" where
  "COLUMN_ALIASES =
     [(''status'', [''status'', ''keberadaan_usaha'']),
      (''email'', [''email'']),
      (''sumber'', [''sumber'', ''sumber_profiling'']),
      (''catatan'', [''catatan'', ''catatan_profiling'']),
      (''idsbr'', [''idsbr'', ''idsbr_master'']),
      (''nama'', [''nama'', ''nama_usaha'', ''nama_usaha_pembetulan'', ''nama_komersial_usaha''])]"

definition PROFILE_FIELD_KEYS :: "string list" where
  "PROFILE_FIELD_KEYS =
     [''nama_usaha_pembetulan'', ''nama_komersial_usaha'', ''alamat_pembetulan'', ''nama_sls'',
      ''kodepos'', ''nomor_telepon'', ''nomor_whatsapp'', ''website'', ''keberadaan_usaha'',
      ''idsbr_master'', ''kdprov_pindah'', ''kdkab_pindah'', ''kdprov'', ''kdkab'', ''kdkec'',
      ''kddesa'', ''jenis_kepemilikan_usaha'', ''bentuk_badan_hukum_usaha'',
      ''sumber_profiling'', ''catatan_profiling'']"

datatype load_error = RuntimeError string | IndexError

definition has_column :: "dataframe \<Rightarrow> string \<Rightarrow> (string \<times> string list) list \<Rightarrow> bool" where
  "has_column df name aliases =
     (name \<in> set (columns df)
      \<or> (case map_of aliases name of
            Some cands \<Rightarrow> list_ex (\<lambda>cand. cand \<in> set (columns df)) cands
          | None \<Rightarrow> False))"

definition ensure_required_with_aliases ::
  "dataframe \<Rightarrow> string list \<Rightarrow> (string \<times> string list) list \<Rightarrow> load_error option" where
  "ensure_required_with_aliases df required aliases =
     (let missing = filter (\<lambda>base. \<not> has_column df base aliases) required
      in if missing \<noteq> []
         then Some (RuntimeError (''Kolom wajib belum ada di Excel: '' @ join '', '' missing))
         else None)"

definition ensure_required_columns :: "dataframe \<Rightarrow> string list \<Rightarrow> load_error option" where
  "ensure_required_columns df required =
     (let missing = filter (\<lambda>col. col \<notin> set (columns df)) required
      in if missing \<noteq> []
         then Some (RuntimeError (''Kolom wajib belum ada di Excel: '' @ join '', '' missing))
         else None)"

definition ensure_profile_fields :: "dataframe \<Rightarrow> load_error option" where
  "ensure_profile_fields df = ensure_required_columns df PROFILE_FIELD_KEYS"

definition extract_profile_payload :: "df_row \<Rightarrow> (string \<times> string) list" where
  "extract_profile_payload df_row =
     map (\<lambda>key. (key, norm_space (obj_of (df_row key)))) PROFILE_FIELD_KEYS"

text \<open>
  \<^verbatim>\<open>slice_rows\<close>: the requested range, 1-indexed and inclusive, as a pair of 0-indexed
  bounds; \<open>n\<close> is \<^verbatim>\<open>len(df)\<close>.
\<close>

definition slice_rows :: "int \<Rightarrow> int option \<Rightarrow> int option \<Rightarrow> int \<times> int" where
  "slice_rows n start end =
     (let start_idx = (case start of None \<Rightarrow> 0 | Some s \<Rightarrow> max (s - 1) 0);
          end_idx = (case end of None \<Rightarrow> n | Some e \<Rightarrow> min e n)
      in (start_idx, end_idx))"

text \<open>
  \<^verbatim>\<open>df.iloc[i]\<close>: a negative position counts from the end, and a position outside the
  frame raises \<^verbatim>\<open>IndexError\<close>.
\<close>

definition iloc :: "dataframe \<Rightarrow> int \<Rightarrow> load_error + df_row" where
  "iloc df i =
     (if 0 \<le> i \<and> i < int (length (rows df)) then Inr (rows df ! nat i)
      else if i < 0 \<and> - int (length (rows df)) \<le> i
      then Inr (rows df ! nat (int (length (rows df)) + i))
      else Inl IndexError)"

section \<open>models.py and loader.py: row contexts\<close>

record RowContext =
  table_index :: int
  display_index :: int
  idsbr :: string
  nama :: string
  status :: string
  phone :: string
  whatsapp :: string
  email :: string
  website :: string
  latitude :: string
  longitude :: string
  sumber :: string
  catatan :: string
  profiling_payload :: "(string \<times> string) list"

definition PHONE_COLUMN_CANDIDATES :: "string list" where
  "PHONE_COLUMN_CANDIDATES =
     [''nomor_telepon'', ''Nomor Telepon'', ''No Telepon'', ''No. Telepon'', ''Telepon'',
      ''Telepon/HP'', ''Phone'']"

definition WHATSAPP_COLUMN_CANDIDATES :: "string list" where
  "WHATSAPP_COLUMN_CANDIDATES = [''nomor_whatsapp'', ''whatsapp'', ''no_whatsapp'', ''no whatsapp'']"

definition MATCH_BY_REQUIRED_COLUMNS :: "(string \<times> string list) list" where
  "MATCH_BY_REQUIRED_COLUMNS =
     [(''idsbr'', [''idsbr'', ''idsbr_master'']),
      (''name'', [''nama'', ''nama_usaha'', ''nama_usaha_pembetulan''])]"

text \<open>
  The first candidate column of the row with a non-blank value, else the first
  candidate column the row has, else a last lookup.
\<close>

definition select_phone_value :: "df_row \<Rightarrow> cell option" where
  "select_phone_value df_row =
     (case find (\<lambda>column. df_row column \<noteq> None \<and> norm_space (obj_of (df_row column)) \<noteq> [])
             PHONE_COLUMN_CANDIDATES of
        Some column \<Rightarrow> df_row column
      | None \<Rightarrow>
          (case find (\<lambda>column. df_row column \<noteq> None) PHONE_COLUMN_CANDIDATES of
             Some column \<Rightarrow> df_row column
           | None \<Rightarrow> df_row ''Nomor Telepon''))"

definition select_whatsapp_value :: "df_row \<Rightarrow> cell option" where
  "select_whatsapp_value df_row =
     (case find (\<lambda>column. df_row column \<noteq> None \<and> norm_space (obj_of (df_row column)) \<noteq> [])
             WHATSAPP_COLUMN_CANDIDATES of
        Some column \<Rightarrow> df_row column
      | None \<Rightarrow>
          (case find (\<lambda>column. df_row column \<noteq> None) WHATSAPP_COLUMN_CANDIDATES of
             Some column \<Rightarrow> df_row column
           | None \<Rightarrow> py_or (df_row ''nomor_whatsapp'') (df_row ''whatsapp'')))"

definition context_from_row :: "df_row \<Rightarrow> int \<Rightarrow> int \<Rightarrow> RowContext" where
  "context_from_row df_row table_idx display_idx =
     \<lparr> table_index = table_idx,
       display_index = display_idx,
       idsbr = norm_space (obj_of
         (py_or (py_or (df_row ''idsbr'') (df_row ''idsbr_master'')) (df_row ''IDSBR''))),
       nama = norm_space (obj_of
         (py_or (py_or (py_or (df_row ''nama'') (df_row ''nama_usaha''))
            (df_row ''nama_usaha_pembetulan'')) (df_row ''nama_komersial_usaha''))),
       status = normalize_status (norm_space (obj_of
         (py_or (df_row ''status'') (df_row ''keberadaan_usaha'')))),
       phone = norm_phone (obj_of (select_phone_value df_row)),
       whatsapp = norm_phone (obj_of (select_whatsapp_value df_row)),
       email = norm_space (obj_of (df_row ''email'')),
       website = norm_space (obj_of (df_row ''website'')),
       latitude = norm_float (obj_of (df_row ''latitude'')),
       longitude = norm_float (obj_of (df_row ''longitude'')),
       sumber = norm_space (obj_of (py_or (df_row ''sumber_profiling'') (df_row ''sumber''))),
       catatan = norm_space (obj_of (py_or (df_row ''catatan_profiling'') (df_row ''catatan''))),
       profiling_payload = extract_profile_payload df_row \<rparr>"

definition match_by_columns :: "string \<Rightarrow> string list" where
  "match_by_columns match_by =
     (case map_of MATCH_BY_REQUIRED_COLUMNS match_by of Some cols \<Rightarrow> cols | None \<Rightarrow> [])"

definition validate_columns :: "string \<Rightarrow> dataframe \<Rightarrow> load_error option" where
  "validate_columns match_by df =
     (case ensure_required_with_aliases df
             (REQUIRED_COLUMNS_AUTOFILL @ match_by_columns match_by) COLUMN_ALIASES of
        Some err \<Rightarrow> Some err
      | None \<Rightarrow> ensure_profile_fields df)"

text \<open>The loop of \<^verbatim>\<open>load_rows\<close> over \<^verbatim>\<open>range(start_idx, end_idx)\<close>.\<close>

fun build_contexts :: "dataframe \<Rightarrow> int list \<Rightarrow> load_error + RowContext list" where
  "build_contexts df [] = Inr []"
| "build_contexts df (i # is) =
     (case iloc df i of
        Inl err \<Rightarrow> Inl err
      | Inr df_row \<Rightarrow>
          (case build_contexts df is of
             Inl err \<Rightarrow> Inl err
           | Inr contexts \<Rightarrow> Inr (context_from_row df_row i (i + 1) # contexts)))"

text \<open>
  \<^verbatim>\<open>load_rows\<close>, from the dataframe on. A failed validation raises: the handler
  names the match columns that are missing under every alias, or raises the
  validation's own error again.
\<close>

definition load_rows ::
  "dataframe \<Rightarrow> string \<Rightarrow> int option \<Rightarrow> int option
     \<Rightarrow> load_error + (RowContext list \<times> int \<times> int)" where
  "load_rows df match_by start_row end_row =
     (case validate_columns match_by df of
        Some err \<Rightarrow>
          (let missing_match =
                 filter (\<lambda>col. \<not> list_ex (\<lambda>alias. alias \<in> set (columns df))
                                    (case map_of COLUMN_ALIASES col of
                                       Some aliases \<Rightarrow> aliases | None \<Rightarrow> [col]))
                   (match_by_columns match_by)
           in if missing_match \<noteq> []
              then Inl (RuntimeError (''Kolom Excel untuk '' @ [CHR 0x27] @ ''--match-by ''
                          @ match_by @ [CHR 0x27] @ '' wajib ada: ''
                          @ join '', '' missing_match @ ''.''))
              else Inl err)
      | None \<Rightarrow>
          (let (start_idx, end_idx) = slice_rows (int (length (rows df))) start_row end_row;
               start_display = start_idx + 1;
               end_display = (if end_idx \<noteq> 0 then end_idx else int (length (rows df)))
           in case build_contexts df [start_idx..end_idx - 1] of
                Inl err \<Rightarrow> Inl err
              | Inr contexts \<Rightarrow> Inr (contexts, start_display, end_display)))"

text \<open>A workbook of three rows with every required column, for concrete runs.\<close>

definition sample_row :: "string \<Rightarrow> string \<Rightarrow> string \<Rightarrow> df_row" where
  "sample_row reg name st = [''idsbr'' \<mapsto> Str reg, ''nama'' \<mapsto> Str name, ''status'' \<mapsto> Str st]"

definition sample_df :: dataframe where
  "sample_df =
     \<lparr> columns = [''idsbr'', ''nama'', ''status'', ''email'', ''sumber'', ''catatan'']
                   @ PROFILE_FIELD_KEYS,
       rows = [sample_row ''1001'' ''Toko A'' ''1'',
               sample_row ''1002'' ''Toko B'' ''belum berproduksi'',
               sample_row ''1003'' ''Toko C'' ''9''] \<rparr>"

section \<open>resume.py: rows of a previous log\<close>

text \<open>
  \<^verbatim>\<open>csv.DictReader\<close> yields one dictionary per line of the log, keyed by the names of
  the header. A line with fewer fields than the header has \<^verbatim>\<open>None\<close> under the names
  it does not reach: a value is a \<^typ>\<open>string option\<close>. The three states of the
  file are: it does not exist; opening or decoding it raises; it yields its rows.
\<close>

type_synonym csv_row = "string \<rightharpoonup> string option"

datatype log_file = Missing | Unreadable | Rows "csv_row list"

datatype read_error = AttributeError | ValueError

text \<open>\<^verbatim>\<open>row.get(key, default)\<close> and \<^verbatim>\<open>row.get(key)\<close>; the result \<open>None\<close> is Python's \<^verbatim>\<open>None\<close>.\<close>

definition row_get_default :: "csv_row \<Rightarrow> string \<Rightarrow> string \<Rightarrow> string option" where
  "row_get_default row key dflt = (case row key of None \<Rightarrow> Some dflt | Some v \<Rightarrow> v)"

definition row_get :: "csv_row \<Rightarrow> string \<Rightarrow> string option" where
  "row_get row key = (case row key of None \<Rightarrow> None | Some v \<Rightarrow> v)"

text \<open>
  \<^verbatim>\<open>int(s)\<close> on a string of digit characters, the only strings it is applied to
  here: the value in base ten when the digits are decimal, \<^verbatim>\<open>ValueError\<close> when a
  superscript digit is among them, and \<^verbatim>\<open>ValueError\<close> as well when the numeral has
  more digits than the interpreter's limit on the conversion of a string to an
  integer, 4300 by default.
\<close>

definition INT_MAX_STR_DIGITS :: nat where
  "INT_MAX_STR_DIGITS = 4300"

definition py_int :: "string \<Rightarrow> read_error + int" where
  "py_int s =
     (if s \<noteq> [] \<and> list_all isdecimal s \<and> length s \<le> INT_MAX_STR_DIGITS
      then Inr (int (foldl (\<lambda>acc c. 10 * acc + (of_char c - 48)) 0 s))
      else Inl ValueError)"

definition RESUME_ELIGIBLE_LEVELS :: "string list" where
  "RESUME_ELIGIBLE_LEVELS = [''OK'']"

text \<open>
  The dictionary comprehension of \<^verbatim>\<open>load_resume_entries\<close>. A dictionary keyed by
  integers is an association list in insertion order; \<open>AList.update\<close> is the
  assignment \<^verbatim>\<open>d[k] = v\<close>, which keeps the place of a key already present.
  \<^verbatim>\<open>None.isdigit()\<close> raises \<^verbatim>\<open>AttributeError\<close>.
\<close>

fun read_entries ::
  "csv_row list \<Rightarrow> (int \<times> csv_row) list \<Rightarrow> read_error + (int \<times> csv_row) list" where
  "read_entries [] entries = Inr entries"
| "read_entries (row # rest) entries =
     (case row_get_default row ''row_index'' [] of
        None \<Rightarrow> Inl AttributeError
      | Some field \<Rightarrow>
          if isdigit field
          then (case py_int field of
                  Inl err \<Rightarrow> Inl err
                | Inr idx \<Rightarrow> read_entries rest (AList.update idx row entries))
          else read_entries rest entries)"

text \<open>\<^verbatim>\<open>(row.get("level") or "").upper() in RESUME_ELIGIBLE_LEVELS\<close>\<close>

definition level_eligible :: "csv_row \<Rightarrow> bool" where
  "level_eligible row =
     (upper (case row_get row ''level'' of None \<Rightarrow> [] | Some level \<Rightarrow> level)
        \<in> set RESUME_ELIGIBLE_LEVELS)"

text \<open>The loop over \<^verbatim>\<open>entries.items()\<close> that fills \<^verbatim>\<open>eligible\<close>.\<close>

fun select_eligible ::
  "int \<Rightarrow> int \<Rightarrow> (int \<times> csv_row) list \<Rightarrow> (int \<times> csv_row) list \<Rightarrow> (int \<times> csv_row) list" where
  "select_eligible start_display end_display [] eligible = eligible"
| "select_eligible start_display end_display ((idx, row) # rest) eligible =
     (if idx < start_display \<or> idx > end_display
      then select_eligible start_display end_display rest eligible
      else if level_eligible row
      then select_eligible start_display end_display rest (AList.update idx row eligible)
      else select_eligible start_display end_display rest eligible)"

text \<open>
  \<^verbatim>\<open>load_resume_entries\<close>. A missing file gives the empty dictionary, and so does any
  exception while the rows are read. The messages it prints are not modelled.
\<close>

definition load_resume_entries :: "log_file \<Rightarrow> int \<Rightarrow> int \<Rightarrow> (int \<times> csv_row) list" where
  "load_resume_entries log_path start_display end_display =
     (case log_path of
        Missing \<Rightarrow> []
      | Unreadable \<Rightarrow> []
      | Rows reader \<Rightarrow>
          (case read_entries reader [] of
             Inl err \<Rightarrow> []
           | Inr entries \<Rightarrow> select_eligible start_display end_display entries []))"

text \<open>
  The events of a log that carry a display index, and the last of them in file
  order: the vocabulary in which the behaviour of \<^verbatim>\<open>load_resume_entries\<close> is stated.
\<close>

definition carries :: "int \<Rightarrow> csv_row \<Rightarrow> bool" where
  "carries idx row =
     (case row_get_default row ''row_index'' [] of
        None \<Rightarrow> False
      | Some field \<Rightarrow> isdigit field \<and> py_int field = Inr idx)"

definition last_event :: "csv_row list \<Rightarrow> int \<Rightarrow> csv_row option" where
  "last_event reader idx =
     (case filter (carries idx) reader of [] \<Rightarrow> None | row # later \<Rightarrow> Some (last (row # later)))"

text \<open>A row the comprehension reads without an exception.\<close>

definition readable :: "csv_row \<Rightarrow> bool" where
  "readable row =
     (case row_get_default row ''row_index'' [] of
        None \<Rightarrow> False
      | Some field \<Rightarrow>
          \<not> isdigit field
          \<or> (list_all isdecimal field \<and> length field \<le> INT_MAX_STR_DIGITS))"

text \<open>
  The log of \<^verbatim>\<open>tests/test_resume.py\<close>, with the header \<^verbatim>\<open>row_index,level,note\<close>
  and events at the display indices 1, 2 and 5.
\<close>

definition log_row :: "string \<Rightarrow> string \<Rightarrow> string \<Rightarrow> csv_row" where
  "log_row idx lvl msg =
     [''row_index'' \<mapsto> Some idx, ''level'' \<mapsto> Some lvl, ''note'' \<mapsto> Some msg]"

definition test_log :: "csv_row list" where
  "test_log = [log_row ''1'' ''OK'' ''ok'', log_row ''2'' ''ERROR'' ''err'', log_row ''5'' ''OK'' ''ok'']"

text \<open>
  Rows of a log as a run writes it, under the header
  \<^verbatim>\<open>ts,row_index,level,stage,idsbr,nama,match_value,note,screenshot\<close>: the row of an
  event, and the row \<^verbatim>\<open>csv.DictReader\<close> yields for a line that was cut after its
  time stamp, which has \<^verbatim>\<open>None\<close> under every later name.
\<close>

definition event_row :: "string \<Rightarrow> string \<Rightarrow> string \<Rightarrow> string \<Rightarrow> csv_row" where
  "event_row t idx lvl stg =
     [''ts'' \<mapsto> Some t, ''row_index'' \<mapsto> Some idx, ''level'' \<mapsto> Some lvl,
      ''stage'' \<mapsto> Some stg, ''idsbr'' \<mapsto> Some [], ''nama'' \<mapsto> Some [],
      ''match_value'' \<mapsto> Some [], ''note'' \<mapsto> Some [], ''screenshot'' \<mapsto> Some []]"

definition short_row :: csv_row where
  "short_row =
     [''ts'' \<mapsto> Some ''20250101_101502'', ''row_index'' \<mapsto> None, ''level'' \<mapsto> None,
      ''stage'' \<mapsto> None, ''idsbr'' \<mapsto> None, ''nama'' \<mapsto> None,
      ''match_value'' \<mapsto> None, ''note'' \<mapsto> None, ''screenshot'' \<mapsto> None]"

definition run_log :: "csv_row list" where
  "run_log =
     [event_row ''20250101_101458'' ''1'' ''OK'' ''ROW_DONE'',
      event_row ''20250101_101500'' ''2'' ''ERROR'' ''CLICK_EDIT'',
      event_row ''20250101_101501'' ''5'' ''OK'' ''ROW_DONE'']"

section \<open>logbook.py: events\<close>

text \<open>
  An event of the log book. Its time stamp is the clock's and is left out; every
  other field is as in \<^verbatim>\<open>LogEvent\<close>. \<^verbatim>\<open>LogBook.append\<close> adds the event at the end
  and raises the attention flag on an event of level \<^verbatim>\<open>ERROR\<close>.
\<close>

datatype level = OK | WARN | ERROR

record LogEvent =
  row_index :: int
  level :: level
  stage :: string
  idsbr :: string
  nama :: string
  match_value :: string
  note_text :: string
  screenshot :: string

section \<open>utils.py: screenshots and exceptions\<close>

text \<open>An exception is its class name and its message.\<close>

type_synonym exc = "string \<times> string"

definition describe_exception :: "exc \<Rightarrow> string" where
  "describe_exception e = fst e @ '': '' @ snd e"

record ScreenshotResult =
  path :: "string option"
  reason :: "string option"

definition note_with_reason :: "string \<Rightarrow> ScreenshotResult \<Rightarrow> string" where
  "note_with_reason msg shot =
     (if path shot \<noteq> None \<or> reason shot = None \<or> reason shot = Some [] then msg
      else msg @ '' (screenshot-error: '' @ (case reason shot of Some r \<Rightarrow> r | None \<Rightarrow> [])
             @ '')'')"

text \<open>\<^verbatim>\<open>shot.path or ""\<close>\<close>

definition path_or_empty :: "ScreenshotResult \<Rightarrow> string" where
  "path_or_empty shot = (case path shot of Some p \<Rightarrow> p | None \<Rightarrow> [])"

section \<open>The browser as the orchestrator sees it\<close>

text \<open>
  The page is driven through Playwright. The model takes what the driver answers
  for a row as given, and records what the program does to the page as a list of
  actions: typing a filter into the table's search box, clicking an edit control,
  confirming the edit dialog, waiting for the form to open
  (\<^verbatim>\<open>open_form_page\<close>), closing a tab, filling the form, submitting it, taking a
  screenshot. Reading the page (counting, testing visibility) and moving the focus
  (\<^verbatim>\<open>bring_to_front\<close>) leave no action.
\<close>

datatype ui_action =
  FilterTable | ClickEdit | ConfirmEdit | OpenForm | CloseTab | FillForm | SubmitForm
  | TakeScreenshot string

text \<open>
  What \<^verbatim>\<open>click_edit_by_index\<close> finds: the exception, if any, that waiting for
  the table or counting in it raises (all of it happens before any click), the
  number of table rows, the number of matches of the primary and of the fallback
  selector in the row, and the answer of \<^verbatim>\<open>ensure_click\<close> (one attempt, never
  raises) if it is called.
\<close>

record table_view =
  table_wait :: "exc option"
  row_count :: int
  primary_count :: int
  fallback_count :: int
  click_ok :: bool

text \<open>
  What \<^verbatim>\<open>click_edit_by_text\<close> finds for one text variant: an exception of the search
  itself, whether the filter could be applied, whether a matching row appeared,
  the matches of the two selectors in it, and the answer of \<^verbatim>\<open>ensure_click\<close>. The
  variants of a text (\<^verbatim>\<open>_text_variants\<close>, which goes through floating point) are
  taken as given, one view for each.
\<close>

record variant_view =
  search_error :: "exc option"
  used_filter :: bool
  row_found :: bool
  primary_matches :: int
  fallback_matches :: int
  variant_click_ok :: bool

record text_view =
  text_wait :: "exc option"
  variants :: "variant_view list"

text \<open>The answer of \<^verbatim>\<open>is_visible\<close>: true, false or an exception.\<close>

datatype probe = Visible | Hidden | ProbeRaises

record final_view =
  cancel_btn :: probe
  submit_candidates :: "probe list"

record lock_view =
  lock_texts :: "bool list"
  back_button :: bool

record fill_summary =
  updated :: int
  skipped :: int
  errors :: "string list"

record SubmitResult =
  code :: string
  detail :: string

datatype page = MainPage | Tab nat

text \<open>
  Everything the driver answers while one row is processed. A row takes at most
  two screenshots: \<open>shot\<close> is the first and \<open>late_shot\<close> the second, which only a
  handler takes after \<^verbatim>\<open>bring_to_front\<close> has raised. \<open>ya_edit_count\<close> is \<open>None\<close> when looking for the
  confirmation button raises \<^verbatim>\<open>PlaywrightError\<close>. \<open>open_form\<close> is the triple
  \<^verbatim>\<open>open_form_page\<close> returns: its page is \<open>MainPage\<close> when the form opened in the
  tab of the table (\<^verbatim>\<open>return page, ...\<close> in \<^verbatim>\<open>navigator.py\<close>) and a \<open>Tab\<close> otherwise.
  \<open>extra_pages\<close> is the number of tabs opened besides it. \<open>closed_error\<close> is the
  exception Playwright raises for a call on a page that has been closed.
\<close>

record row_ui =
  edit_by_index :: table_view
  edit_by_text :: text_view
  shot :: ScreenshotResult
  late_shot :: ScreenshotResult
  ya_edit_count :: "int option"
  open_form :: "page option \<times> string \<times> string"
  extra_pages :: nat
  final_check :: "(exc, final_view) outcome"
  lock_check :: lock_view
  fill :: "(exc, fill_summary) outcome"
  submit :: "(exc, SubmitResult) outcome"
  closed_error :: exc

section \<open>table_actions.py: finding the edit control\<close>

definition click_edit_by_index ::
  "table_view \<Rightarrow> int \<Rightarrow> bool \<Rightarrow> (exc, bool) outcome \<times> ui_action list" where
  "click_edit_by_index view index0 perform_click =
     (case table_wait view of
        Some e \<Rightarrow> (Raises e, [])
      | None \<Rightarrow>
          if index0 \<ge> row_count view then (Returns False, [])
          else if primary_count view = 0
          then (if fallback_count view = 0 then (Returns False, [])
                else if \<not> perform_click then (Returns True, [])
                else (Returns (click_ok view), [ClickEdit]))
          else if \<not> perform_click then (Returns True, [])
          else (Returns (click_ok view), [ClickEdit]))"

text \<open>
  The loop of \<^verbatim>\<open>click_edit_by_text\<close> over the variants. A filter that was applied
  is cleared again when no row is found and after a control is found.
\<close>

fun try_variants :: "variant_view list \<Rightarrow> bool \<Rightarrow> (exc, bool) outcome \<times> ui_action list" where
  "try_variants [] perform_click = (Returns False, [])"
| "try_variants (v # vs) perform_click =
     (case search_error v of
        Some e \<Rightarrow> (Raises e, [])
      | None \<Rightarrow>
          let filtering = (if used_filter v then [FilterTable] else []);
              next_variant = (\<lambda>acts. case try_variants vs perform_click of
                                (r, later) \<Rightarrow> (r, acts @ later))
          in if \<not> row_found v then next_variant (filtering @ filtering)
             else if primary_matches v > 0 \<or> fallback_matches v > 0
             then (if perform_click
                   then (if variant_click_ok v then (Returns True, filtering @ [ClickEdit] @ filtering)
                         else next_variant (filtering @ [ClickEdit] @ filtering))
                   else (Returns True, filtering @ filtering))
             else next_variant filtering)"

definition click_edit_by_text ::
  "text_view \<Rightarrow> string \<Rightarrow> bool \<Rightarrow> (exc, bool) outcome \<times> ui_action list" where
  "click_edit_by_text view target perform_click =
     (if strip target = [] then (Returns False, [])
      else case text_wait view of
             Some e \<Rightarrow> (Raises e, [])
           | None \<Rightarrow> try_variants (variants view) perform_click)"

section \<open>submitter.py: the state of the opened form\<close>

text \<open>
  \<^verbatim>\<open>is_finalized_form\<close>: the cancel-submit control is visible (an exception counts
  as not visible) and no submit-final candidate is (an exception is skipped).
\<close>

fun any_visible :: "probe list \<Rightarrow> bool" where
  "any_visible [] = False"
| "any_visible (Visible # candidates) = True"
| "any_visible (Hidden # candidates) = any_visible candidates"
| "any_visible (ProbeRaises # candidates) = any_visible candidates"

definition is_finalized_form :: "final_view \<Rightarrow> bool" where
  "is_finalized_form view =
     (let visible_cancel = (case cancel_btn view of Visible \<Rightarrow> True | Hidden \<Rightarrow> False
                            | ProbeRaises \<Rightarrow> False)
      in if \<not> visible_cancel then False
         else if any_visible (submit_candidates view) then False
         else True)"

definition is_locked_page :: "lock_view \<Rightarrow> bool" where
  "is_locked_page view = (if list_ex (\<lambda>seen. seen) (lock_texts view) then True else back_button view)"

section \<open>autofill.py: the orchestrator\<close>

record AutofillOptions =
  match_by :: string
  start_row :: "int option"
  end_row :: "int option"
  stop_on_error :: bool
  resume :: bool
  dry_run :: bool

text \<open>
  The state of a run: the events of the log book and its attention flag, the three
  counters, the errors kept for the notifier, the resume entries still to use,
  the actions done on the page so far, and the exception, if any, that left the
  loop uncaught.
\<close>

record run =
  logbook :: "LogEvent list"
  attention :: bool
  ok_rows :: nat
  skipped_rows :: nat
  error_rows :: nat
  recent_errors :: "string list"
  resume_entries :: "(int \<times> csv_row) list"
  actions :: "ui_action list"
  aborted :: "exc option"

text \<open>
  How the body of the loop ends for a row: \<^verbatim>\<open>continue\<close> (or its end), \<^verbatim>\<open>break\<close>, or
  an exception that no handler of the body catches and that ends the run.
\<close>

datatype flow = Continue | Break | Abort exc

definition append_event :: "LogEvent \<Rightarrow> run \<Rightarrow> run" where
  "append_event ev st =
     st\<lparr> logbook := logbook st @ [ev], attention := (attention st \<or> level ev = ERROR) \<rparr>"

definition act :: "ui_action list \<Rightarrow> run \<Rightarrow> run" where
  "act acts st = st\<lparr> actions := actions st @ acts \<rparr>"

definition event ::
  "RowContext \<Rightarrow> level \<Rightarrow> string \<Rightarrow> string \<Rightarrow> string \<Rightarrow> string \<Rightarrow> LogEvent" where
  "event ctx lvl stg mv msg scr =
     \<lparr> row_index = display_index ctx, level = lvl, stage = stg,
       idsbr = RowContext.idsbr ctx, nama = RowContext.nama ctx,
       match_value = mv, note_text = msg, screenshot = scr \<rparr>"

definition format_match_value :: "RowContext \<Rightarrow> string \<Rightarrow> string" where
  "format_match_value ctx by =
     (if by = ''index'' then str_int (table_index ctx)
      else if by = ''idsbr'' then RowContext.idsbr ctx
      else if by = ''name'' then RowContext.nama ctx
      else [])"

text \<open>\<^verbatim>\<open>x or default\<close> on strings, and the text an f-string gives a value that may be \<^verbatim>\<open>None\<close>.\<close>

definition or_else :: "string \<Rightarrow> string \<Rightarrow> string" where
  "or_else x dflt = (if x \<noteq> [] then x else dflt)"

definition fmt :: "string option \<Rightarrow> string" where
  "fmt v = (case v of None \<Rightarrow> ''None'' | Some s \<Rightarrow> s)"

text \<open>\<^verbatim>\<open>if options.stop_on_error: break\<close>, else \<^verbatim>\<open>continue\<close>.\<close>

definition after_error :: "AutofillOptions \<Rightarrow> flow" where
  "after_error options = (if stop_on_error options then Break else Continue)"

text \<open>
  The stages of the loop body, last stage first. Each takes the page \<open>form\<close> that
  \<^verbatim>\<open>open_form_page\<close> returned and the state the row has reached, and returns how the
  body ends and the state it leaves.

  The body closes the form with \<^verbatim>\<open>new_page.close()\<close> and then calls
  \<^verbatim>\<open>page.bring_to_front()\<close> on the page of the table. It never tests whether the
  form is that very page. When it is (\<open>form = MainPage\<close>), the close closes the
  table's page and \<^verbatim>\<open>bring_to_front\<close> raises \<open>closed_error\<close>: inside a \<^verbatim>\<open>try\<close> the
  handler of that \<^verbatim>\<open>try\<close> takes over, outside it the exception ends the run. For a
  form in a tab of its own the call returns. \<^verbatim>\<open>wait_for_timeout\<close>, \<^verbatim>\<open>open_form_page\<close>
  and the creation of the screenshot directory are taken to return normally;
  closing a tab may raise \<^verbatim>\<open>PlaywrightError\<close>, which the body swallows.
\<close>

text \<open>
  Lines 547 to 567: the form is closed, the table brought to the front, and only
  then is \<^verbatim>\<open>ROW_DONE\<close> logged and the row counted.
\<close>

definition finish_row :: "RowContext \<Rightarrow> row_ui \<Rightarrow> string \<Rightarrow> page \<Rightarrow> run \<Rightarrow> flow \<times> run" where
  "finish_row ctx ui mv form st =
     (let st1 = act [CloseTab] st
      in if form = MainPage then (Abort (closed_error ui), st1)
         else
           let st2 = append_event (event ctx OK ''ROW_DONE'' mv ''Baris selesai diproses'' []) st1
           in (Continue, st2\<lparr> ok_rows := Suc (ok_rows st2) \<rparr>))"

text \<open>
  The handler of the submit stage (lines 516 to 545), for the exception \<open>e\<close> and the
  screenshot \<open>sh\<close> it takes.
\<close>

definition submit_handler ::
  "AutofillOptions \<Rightarrow> RowContext \<Rightarrow> row_ui \<Rightarrow> string \<Rightarrow> page \<Rightarrow> exc \<Rightarrow> ScreenshotResult
     \<Rightarrow> run \<Rightarrow> flow \<times> run" where
  "submit_handler options ctx ui mv form e sh st =
     (let st1 = act [TakeScreenshot (''exception_submit_'' @ str_int (display_index ctx))] st;
          st2 = append_event (event ctx ERROR ''SUBMIT'' mv
                  (note_with_reason (''EXCEPTION: '' @ describe_exception e) sh)
                  (path_or_empty sh)) st1;
          st3 = act [CloseTab] (st2\<lparr> error_rows := Suc (error_rows st2) \<rparr>)
      in if stop_on_error options then (Break, st3)
         else if form = MainPage then (Abort (closed_error ui), st3)
         else (Continue, st3))"

definition submit_stage ::
  "AutofillOptions \<Rightarrow> RowContext \<Rightarrow> row_ui \<Rightarrow> string \<Rightarrow> page \<Rightarrow> run \<Rightarrow> flow \<times> run" where
  "submit_stage options ctx ui mv form st =
     (case submit ui of
        Returns result \<Rightarrow>
          if code result \<noteq> ''OK''
          then
            let st1 = act [SubmitForm, TakeScreenshot (''submit_issue_'' @ str_int (display_index ctx)
                             @ ''_'' @ code result)] st;
                detail_note = (if detail result \<noteq> [] then code result @ '' | '' @ detail result
                               else code result);
                st2 = append_event (event ctx ERROR ''SUBMIT'' mv
                        (note_with_reason detail_note (shot ui)) (path_or_empty (shot ui))) st1;
                st3 = act [CloseTab] (st2\<lparr> error_rows := Suc (error_rows st2) \<rparr>)
            in if form = MainPage
               then submit_handler options ctx ui mv form (closed_error ui) (late_shot ui) st3
               else (after_error options, st3)
          else
            finish_row ctx ui mv form
              (append_event (event ctx OK ''SUBMIT'' mv
                 (or_else (detail result) ''Submit final sukses'') []) (act [SubmitForm] st))
      | Raises e \<Rightarrow>
          submit_handler options ctx ui mv form e (shot ui) (act [SubmitForm] st))"

text \<open>The handler of the fill stage (lines 442 to 467).\<close>

definition fill_handler ::
  "AutofillOptions \<Rightarrow> RowContext \<Rightarrow> row_ui \<Rightarrow> string \<Rightarrow> page \<Rightarrow> exc \<Rightarrow> ScreenshotResult
     \<Rightarrow> run \<Rightarrow> flow \<times> run" where
  "fill_handler options ctx ui mv form e sh st =
     (let st1 = act [TakeScreenshot (''exception_fill_form_'' @ str_int (display_index ctx))] st;
          st2 = append_event (event ctx ERROR ''FILL'' mv
                  (note_with_reason (''Exception isi form: '' @ describe_exception e) sh)
                  (path_or_empty sh)) st1;
          st3 = act [CloseTab] (st2\<lparr> error_rows := Suc (error_rows st2) \<rparr>)
      in if stop_on_error options then (Break, st3)
         else if form = MainPage then (Abort (closed_error ui), st3)
         else (Continue, st3))"

definition fill_stage ::
  "AutofillOptions \<Rightarrow> RowContext \<Rightarrow> row_ui \<Rightarrow> string \<Rightarrow> page \<Rightarrow> run \<Rightarrow> flow \<times> run" where
  "fill_stage options ctx ui mv form st =
     (case fill ui of
        Returns summary \<Rightarrow>
          let note_fill = ''Form terisi (update='' @ str_int (updated summary) @ '', skip=''
                            @ str_int (skipped summary) @ '')''
          in if errors summary \<noteq> []
             then
               let st1 = act [FillForm, TakeScreenshot (''fill_errors_''
                                @ str_int (display_index ctx))] st;
                   st2 = append_event (event ctx ERROR ''FILL'' mv
                           (note_fill @ '' | Kendala: '' @ join '', '' (errors summary))
                           (path_or_empty (shot ui))) st1;
                   st3 = act [CloseTab] (st2\<lparr> error_rows := Suc (error_rows st2) \<rparr>)
               in if form = MainPage
                  then fill_handler options ctx ui mv form (closed_error ui) (late_shot ui) st3
                  else (after_error options, st3)
             else submit_stage options ctx ui mv form
                    (append_event (event ctx OK ''FILL'' mv note_fill []) (act [FillForm] st))
      | Raises e \<Rightarrow>
          fill_handler options ctx ui mv form e (shot ui) (act [FillForm] st))"

text \<open>
  The lock check (lines 379 to 404). On a page that is already closed every wait
  of \<^verbatim>\<open>is_locked_page\<close> raises and the function answers \<^verbatim>\<open>False\<close>. The call of
  \<^verbatim>\<open>bring_to_front\<close> after the close stands outside any \<^verbatim>\<open>try\<close>.
\<close>

definition lock_stage ::
  "AutofillOptions \<Rightarrow> RowContext \<Rightarrow> row_ui \<Rightarrow> string \<Rightarrow> page \<Rightarrow> bool \<Rightarrow> run
     \<Rightarrow> flow \<times> run" where
  "lock_stage options ctx ui mv form closed st =
     (if \<not> closed \<and> is_locked_page (lock_check ui)
      then
        let st1 = act [TakeScreenshot (''locked_'' @ str_int (display_index ctx))] st;
            st2 = append_event (event ctx WARN ''ACCESS'' mv
                    (note_with_reason
                       ''CODE:FORM_LOCKED Usaha sedang diedit oleh pengguna lain. Tutup tab sebelum lanjut.''
                       (shot ui))
                    (path_or_empty (shot ui))) st1;
            st3 = act [CloseTab] st2
        in if form = MainPage then (Abort (closed_error ui), st3)
           else (Continue, st3\<lparr> skipped_rows := Suc (skipped_rows st3) \<rparr>)
      else fill_stage options ctx ui mv form st)"

text \<open>
  The check for a form that is already final (lines 353 to 377). The \<^verbatim>\<open>try\<close> spans
  the check, the event, the close and \<^verbatim>\<open>bring_to_front\<close>; its handler only prints.
  So when \<^verbatim>\<open>bring_to_front\<close> raises, the count and the \<^verbatim>\<open>continue\<close> are skipped and the
  body goes on to the lock check with the page closed.
\<close>

definition final_stage ::
  "AutofillOptions \<Rightarrow> RowContext \<Rightarrow> row_ui \<Rightarrow> string \<Rightarrow> page \<Rightarrow> run \<Rightarrow> flow \<times> run" where
  "final_stage options ctx ui mv form st =
     (case final_check ui of
        Returns view \<Rightarrow>
          if is_finalized_form view
          then
            let st1 = append_event (event ctx OK ''FINAL_SKIP'' mv
                        ''CODE:FINAL_ALREADY_SUBMITTED Dilewati: form sudah final (tombol Cancel Submit terlihat).''
                        []) st;
                st2 = act [CloseTab] st1
            in if form = MainPage then lock_stage options ctx ui mv form True st2
               else (Continue, st2\<lparr> skipped_rows := Suc (skipped_rows st2) \<rparr>)
          else lock_stage options ctx ui mv form False st
      | Raises e \<Rightarrow> lock_stage options ctx ui mv form False st)"

definition open_stage ::
  "AutofillOptions \<Rightarrow> RowContext \<Rightarrow> row_ui \<Rightarrow> string \<Rightarrow> run \<Rightarrow> flow \<times> run" where
  "open_stage options ctx ui mv st =
     (let confirm = (case ya_edit_count ui of
                       Some n \<Rightarrow> if n > 0 then [ConfirmEdit] else []
                     | None \<Rightarrow> []);
          st1 = act (confirm @ [OpenForm] @ replicate (extra_pages ui) CloseTab) st
      in case open_form ui of
           (None, open_note, open_error) \<Rightarrow>
             let st2 = act [TakeScreenshot (''no_new_tab_'' @ str_int (display_index ctx))] st1;
                 st3 = append_event (event ctx ERROR ''OPEN_TAB'' mv
                         (note_with_reason
                            (or_else open_error ''CODE:OPEN_TAB_NO_PAGE Tidak ada tab form.'')
                            (shot ui))
                         (path_or_empty (shot ui))) st2
             in (after_error options, st3\<lparr> error_rows := Suc (error_rows st3) \<rparr>)
         | (Some new_page, open_note, open_error) \<Rightarrow>
             final_stage options ctx ui mv new_page
               (if open_note \<noteq> []
                then append_event (event ctx OK ''OPEN_TAB'' mv open_note []) st1
                else st1))"

text \<open>
  The click on the edit control, by table position or by text. In a dry run the
  control is looked for with \<^verbatim>\<open>perform_click=False\<close>.
\<close>

definition click_edit ::
  "AutofillOptions \<Rightarrow> RowContext \<Rightarrow> row_ui \<Rightarrow> string \<Rightarrow> (exc, bool) outcome \<times> ui_action list"
  where
  "click_edit options ctx ui mv =
     (if match_by options = ''index''
      then click_edit_by_index (edit_by_index ui) (table_index ctx) (\<not> dry_run options)
      else if match_by options = ''idsbr''
      then click_edit_by_text (edit_by_text ui) mv (\<not> dry_run options)
      else if match_by options = ''name''
      then click_edit_by_text (edit_by_text ui) mv (\<not> dry_run options)
      else (Returns False, []))"

definition click_failed ::
  "AutofillOptions \<Rightarrow> RowContext \<Rightarrow> row_ui \<Rightarrow> string \<Rightarrow> string \<Rightarrow> string \<Rightarrow> string
     \<Rightarrow> run \<Rightarrow> flow \<times> run" where
  "click_failed options ctx ui mv label msg error_code st =
     (let st1 = act [TakeScreenshot (label @ str_int (display_index ctx))] st;
          st2 = append_event (event ctx ERROR ''CLICK_EDIT'' mv (note_with_reason msg (shot ui))
                  (path_or_empty (shot ui))) st1;
          st3 = st2\<lparr> error_rows := Suc (error_rows st2),
                     recent_errors := recent_errors st2
                       @ [''Baris '' @ str_int (display_index ctx) @ '': '' @ error_code] \<rparr>
      in (after_error options, st3))"

definition click_stage ::
  "AutofillOptions \<Rightarrow> RowContext \<Rightarrow> row_ui \<Rightarrow> string \<Rightarrow> run \<Rightarrow> flow \<times> run" where
  "click_stage options ctx ui mv st =
     (case click_edit options ctx ui mv of
        (Raises e, acts) \<Rightarrow>
          click_failed options ctx ui mv ''exception_click_edit_''
            (''CODE:CLICK_EDIT_EXCEPTION (target '' @ match_by options @ ''='' @ or_else mv ''-''
               @ '') : '' @ describe_exception e)
            ''CODE:CLICK_EDIT_EXCEPTION'' (act acts st)
      | (Returns clicked, acts) \<Rightarrow>
          if \<not> clicked
          then click_failed options ctx ui mv ''gagal_click_edit_''
                 (''CODE:CLICK_EDIT_TIMEOUT Tombol Edit tidak ditemukan atau tidak bisa diklik (target ''
                    @ match_by options @ ''='' @ or_else mv ''-'' @ '')'')
                 ''CODE:CLICK_EDIT_TIMEOUT'' (act acts st)
          else if dry_run options
          then
            let st1 = append_event (event ctx OK ''DRY_RUN'' mv
                        ''Tombol Edit ditemukan (dry-run, form tidak dibuka).'' []) (act acts st)
            in (Continue, st1\<lparr> ok_rows := Suc (ok_rows st1) \<rparr>)
          else open_stage options ctx ui mv (act acts st))"

text \<open>
  A row found among the resume entries is skipped: its entry is popped and one
  \<^verbatim>\<open>RESUME_SKIP\<close> event carries the previous outcome.
\<close>

definition resume_skip :: "RowContext \<Rightarrow> csv_row \<Rightarrow> run \<Rightarrow> flow \<times> run" where
  "resume_skip ctx prev st =
     (let prev_level = row_get_default prev ''level'' ''OK'';
          prev_stage = row_get_default prev ''stage'' [];
          note_detail = row_get_default prev ''note'' [];
          extra = ''Status sebelumnya: '' @ fmt prev_level
                  @ (if prev_stage \<noteq> None \<and> prev_stage \<noteq> Some []
                     then '' | Stage: '' @ fmt prev_stage else [])
                  @ (if note_detail \<noteq> None \<and> note_detail \<noteq> Some []
                     then '' | Catatan: '' @ fmt note_detail else []);
          st1 = st\<lparr> resume_entries := AList.delete (display_index ctx) (resume_entries st) \<rparr>;
          st2 = append_event (event ctx OK ''RESUME_SKIP''
                  (or_else (RowContext.idsbr ctx) (RowContext.nama ctx))
                  (''Dilewati (resume). '' @ extra) []) st1
      in (Continue, st2\<lparr> skipped_rows := Suc (skipped_rows st2) \<rparr>))"

definition process_row :: "AutofillOptions \<Rightarrow> RowContext \<Rightarrow> row_ui \<Rightarrow> run \<Rightarrow> flow \<times> run" where
  "process_row options ctx ui st =
     (case (if resume options then map_of (resume_entries st) (display_index ctx) else None) of
        Some prev \<Rightarrow> resume_skip ctx prev st
      | None \<Rightarrow> click_stage options ctx ui (format_match_value ctx (match_by options)) st)"

text \<open>
  \<^verbatim>\<open>for ctx in contexts\<close>; \<open>ui\<close> gives the driver's answers for each row. An
  exception the body does not catch ends the loop and is kept in the state.
\<close>

fun process_rows ::
  "AutofillOptions \<Rightarrow> (RowContext \<Rightarrow> row_ui) \<Rightarrow> RowContext list \<Rightarrow> run \<Rightarrow> run" where
  "process_rows options ui [] st = st"
| "process_rows options ui (ctx # contexts) st =
     (case process_row options ctx (ui ctx) st of
        (Continue, st') \<Rightarrow> process_rows options ui contexts st'
      | (Break, st') \<Rightarrow> st'
      | (Abort e, st') \<Rightarrow> st'\<lparr> aborted := Some e \<rparr>)"

record AutofillStats =
  success_count :: nat
  error_count :: nat
  skip_count :: nat
  last_errors :: "string list"

datatype run_error = LoadFailed load_error | BrowserFailed string | Uncaught exc

text \<open>
  \<^verbatim>\<open>process_autofill\<close>: the rows are loaded; with \<^verbatim>\<open>resume\<close> the entries of the
  previous log (the file \<^verbatim>\<open>resolve_resume_log_path\<close> finds) are read for the display
  range; the browser is checked and attached, which may raise; the loop runs; an
  exception that leaves the loop leaves the function, otherwise the statistics
  are returned with the final state. Writing the log, the report and the run
  index to disk is not modelled.
\<close>

definition process_autofill ::
  "AutofillOptions \<Rightarrow> dataframe \<Rightarrow> log_file \<Rightarrow> string option \<Rightarrow> (RowContext \<Rightarrow> row_ui)
     \<Rightarrow> run_error + (AutofillStats \<times> run)" where
  "process_autofill options df previous_log browser_error ui =
     (case load_rows df (match_by options) (start_row options) (end_row options) of
        Inl err \<Rightarrow> Inl (LoadFailed err)
      | Inr (contexts, start_display, end_display) \<Rightarrow>
          let entries = (if resume options
                         then load_resume_entries previous_log start_display end_display
                         else [])
          in case browser_error of
               Some msg \<Rightarrow> Inl (BrowserFailed msg)
             | None \<Rightarrow>
                 let st = process_rows options ui contexts
                            \<lparr> logbook = [], attention = False, ok_rows = 0, skipped_rows = 0,
                              error_rows = 0, recent_errors = [], resume_entries = entries,
                              actions = [], aborted = None \<rparr>
                 in case aborted st of
                      Some e \<Rightarrow> Inl (Uncaught e)
                    | None \<Rightarrow>
                        Inr (\<lparr> success_count = ok_rows st, error_count = error_rows st,
                               skip_count = skipped_rows st,
                               last_errors = drop (length (recent_errors st) - 5)
                                               (recent_errors st) \<rparr>,
                             st))"

section \<open>Vocabulary for statements about a run\<close>

text \<open>The events and the actions a step adds to a state.\<close>

definition new_events :: "run \<Rightarrow> run \<Rightarrow> LogEvent list" where
  "new_events st st' = drop (length (logbook st)) (logbook st')"

definition new_actions :: "run \<Rightarrow> run \<Rightarrow> ui_action list" where
  "new_actions st st' = drop (length (actions st)) (actions st')"

definition has_error :: "LogEvent list \<Rightarrow> bool" where
  "has_error evs = list_ex (\<lambda>ev. level ev = ERROR) evs"

text \<open>
  The outcome of a loop body is sound for the stop-on-error policy when the log
  only grew, the body breaks exactly when the policy is set and the row logged an
  error, and the last event of a row that logged an error is an error.
\<close>

definition row_ok :: "AutofillOptions \<Rightarrow> run \<Rightarrow> flow \<times> run \<Rightarrow> bool" where
  "row_ok options st r =
     (logbook (snd r) = logbook st @ new_events st (snd r)
      \<and> (fst r = Break) = (stop_on_error options \<and> has_error (new_events st (snd r)))
      \<and> (if has_error (new_events st (snd r))
          then new_events st (snd r) \<noteq> [] \<and> level (last (new_events st (snd r))) = ERROR
          else True))"

fun is_abort :: "flow \<Rightarrow> bool" where
  "is_abort (Abort e) = True"
| "is_abort Continue = False"
| "is_abort Break = False"

text \<open>The actions that touch a form or click an edit control.\<close>

fun touches_form :: "ui_action \<Rightarrow> bool" where
  "touches_form FilterTable = False"
| "touches_form (TakeScreenshot label) = False"
| "touches_form ClickEdit = True"
| "touches_form ConfirmEdit = True"
| "touches_form OpenForm = True"
| "touches_form CloseTab = True"
| "touches_form FillForm = True"
| "touches_form SubmitForm = True"

text \<open>The state in which \<^verbatim>\<open>process_autofill\<close> enters its loop.\<close>

definition initial_run :: "(int \<times> csv_row) list \<Rightarrow> run" where
  "initial_run entries =
     \<lparr> logbook = [], attention = False, ok_rows = 0, skipped_rows = 0, error_rows = 0,
       recent_errors = [], resume_entries = entries, actions = [], aborted = None \<rparr>"

text \<open>
  Driver answers for concrete runs: a row whose edit control is found and whose
  form opens in a new tab, fills and submits; the same with the form already
  final; with the form locked; a table without the row; and the form opening in
  the tab of the table, as \<^verbatim>\<open>open_form_page\<close> reports it, once locked and once
  already final (\<^verbatim>\<open>fill_form\<close> then runs on the closed page and raises, and the
  screenshot of that page fails).
\<close>

definition smooth_ui :: row_ui where
  "smooth_ui =
     \<lparr> edit_by_index = \<lparr> table_wait = None, row_count = 10, primary_count = 1,
                          fallback_count = 0, click_ok = True \<rparr>,
       edit_by_text = \<lparr> text_wait = None,
                         variants = [\<lparr> search_error = None, used_filter = True, row_found = True,
                                       primary_matches = 1, fallback_matches = 0,
                                       variant_click_ok = True \<rparr>] \<rparr>,
       shot = \<lparr> path = Some ''shot.png'', reason = None \<rparr>,
       late_shot = \<lparr> path = None,
                     reason = Some ''Target page, context or browser has been closed'' \<rparr>,
       ya_edit_count = Some 1,
       open_form = (Some (Tab 1), ''Tab form baru terdeteksi (event page).'', []),
       extra_pages = 0,
       final_check = Returns \<lparr> cancel_btn = Hidden, submit_candidates = [Visible, Visible] \<rparr>,
       lock_check = \<lparr> lock_texts = [False, False], back_button = False \<rparr>,
       fill = Returns \<lparr> updated = 3, skipped = 2, errors = [] \<rparr>,
       submit = Returns \<lparr> code = ''OK'', detail = ''Submit final sukses'' \<rparr>,
       closed_error = (''TargetClosedError'',
                       ''Target page, context or browser has been closed'') \<rparr>"

definition finalized_ui :: row_ui where
  "finalized_ui =
     smooth_ui\<lparr> final_check :=
                  Returns \<lparr> cancel_btn = Visible, submit_candidates = [Hidden, ProbeRaises] \<rparr> \<rparr>"

definition locked_ui :: row_ui where
  "locked_ui = smooth_ui\<lparr> lock_check := \<lparr> lock_texts = [False, True], back_button = False \<rparr> \<rparr>"

definition missing_ui :: row_ui where
  "missing_ui =
     smooth_ui\<lparr> edit_by_index := \<lparr> table_wait = None, row_count = 0, primary_count = 0,
                                    fallback_count = 0, click_ok = False \<rparr> \<rparr>"

definition same_tab :: "page option \<times> string \<times> string" where
  "same_tab = (Some MainPage, ''Form dibuka di tab yang sama (URL/title berubah).'', [])"

definition locked_same_tab_ui :: row_ui where
  "locked_same_tab_ui = locked_ui\<lparr> open_form := same_tab \<rparr>"

definition finalized_same_tab_ui :: row_ui where
  "finalized_same_tab_ui =
     finalized_ui\<lparr> open_form := same_tab,
                    shot := \<lparr> path = None,
                              reason = Some ''Target page, context or browser has been closed'' \<rparr>,
                    fill := Raises (''TargetClosedError'',
                                    ''Target page, context or browser has been closed'') \<rparr>"

definition by_index :: "bool \<Rightarrow> bool \<Rightarrow> bool \<Rightarrow> AutofillOptions" where
  "by_index stop res dry =
     \<lparr> match_by = ''index'', start_row = None, end_row = None, stop_on_error = stop,
       resume = res, dry_run = dry \<rparr>"

text \<open>The context of row \<open>i\<close> (display index) of the sample workbook.\<close>

definition sample_ctx :: "int \<Rightarrow> RowContext" where
  "sample_ctx i = context_from_row (rows sample_df ! nat (i - 1)) (i - 1) i"

section \<open>Facts about text\<close>

lemma isdecimal_not_space: "isdecimal c \<Longrightarrow> \<not> isspace c"
  by (auto simp: isdecimal_def isspace_def Let_def)

lemma isdigit_char_not_space: "isdigit_char c \<Longrightarrow> \<not> isspace c"
  by (auto simp: isdigit_char_def isspace_def Let_def)

lemma space_not_decimal: "\<not> isdecimal (CHR '' '')"
  by (simp add: isdecimal_def)

lemma filter_decimal_dropWhile:
  "filter isdecimal (dropWhile isspace s) = filter isdecimal s"
  by (induction s) (auto dest: isdecimal_not_space)

lemma filter_decimal_collapse: "filter isdecimal (collapse_ws s) = filter isdecimal s"
proof (induction s rule: collapse_ws.induct)
  case 1
  show ?case by simp
next
  case (2 c cs)
  show ?case
  proof (cases "isspace c")
    case True
    with 2 show ?thesis
      using isdecimal_not_space [of c]
      by (auto simp: space_not_decimal filter_decimal_dropWhile)
  next
    case False
    with 2 show ?thesis by simp
  qed
qed

lemma filter_decimal_strip: "filter isdecimal (strip s) = filter isdecimal s"
proof -
  have "filter isdecimal (strip s)
      = rev (filter isdecimal (dropWhile isspace (rev (dropWhile isspace s))))"
    by (simp add: strip_def rev_filter)
  also have "\<dots> = rev (filter isdecimal (rev (dropWhile isspace s)))"
    by (simp only: filter_decimal_dropWhile)
  also have "\<dots> = filter isdecimal (dropWhile isspace s)"
    by (simp add: rev_filter)
  finally show ?thesis by (simp add: filter_decimal_dropWhile)
qed

lemma norm_phone_digits: "norm_phone x = filter isdecimal (str_of x)"
  by (cases x) (simp_all add: norm_phone_def filter_decimal_strip filter_decimal_collapse)

section \<open>Facts about status normalisation\<close>

lemma dropWhile_self: "xs = [] \<or> \<not> P (hd xs) \<Longrightarrow> dropWhile P xs = xs"
  by (cases xs) auto

lemma strip_isdigit: "isdigit s \<Longrightarrow> strip s = s"
proof -
  assume d: "isdigit s"
  then have ne: "s \<noteq> []" and all: "list_all isdigit_char s"
    by (simp_all add: isdigit_def)
  have h: "\<not> isspace (hd s)"
    using ne all by (cases s) (auto dest: isdigit_char_not_space)
  have l: "\<not> isspace (hd (rev s))"
    using ne all by (auto simp: hd_rev list_all_iff dest!: isdigit_char_not_space)
  show ?thesis
    using h l by (simp add: strip_def dropWhile_self)
qed

lemma numeric_keys:
  "map_of STATUS_NUMERIC_MAP s = Some label \<Longrightarrow> isdigit s \<and> label \<noteq> [] \<and> s \<noteq> []"
  by (auto simp: STATUS_NUMERIC_MAP_def isdigit_def isdigit_char_def split: if_splits)

section \<open>Facts about the retry helper\<close>




section \<open>Facts about row loading\<close>

lemma context_from_row_indices:
  "table_index (context_from_row df_row t d) = t"
  "display_index (context_from_row df_row t d) = d"
  by (simp_all add: context_from_row_def)

lemma build_contexts_in_range:
  "\<forall>i \<in> set is. 0 \<le> i \<and> i < int (length (rows df)) \<Longrightarrow>
   build_contexts df is = Inr (map (\<lambda>i. context_from_row (rows df ! nat i) i (i + 1)) is)"
  by (induction "is") (auto simp: iloc_def)

section \<open>Facts about the rows of a previous log\<close>

lemma last_event_Cons:
  "last_event (row # rest) idx =
     (case last_event rest idx of
        Some r \<Rightarrow> Some r
      | None \<Rightarrow> if carries idx row then Some row else None)"
  by (auto simp: last_event_def split: list.splits)

lemma read_entries_lookup:
  "read_entries reader acc = Inr entries \<Longrightarrow>
   map_of entries idx = (case last_event reader idx of Some r \<Rightarrow> Some r | None \<Rightarrow> map_of acc idx)"
proof (induction reader arbitrary: acc)
  case Nil
  then show ?case by (simp add: last_event_def)
next
  case (Cons row rest)
  show ?case
  proof (cases "row_get_default row ''row_index'' []")
    case None
    with Cons.prems show ?thesis by simp
  next
    case (Some field)
    show ?thesis
    proof (cases "isdigit field")
      case False
      with Some Cons.prems have "read_entries rest acc = Inr entries" by simp
      from Cons.IH [OF this] False Some show ?thesis
        by (simp add: last_event_Cons carries_def split: option.splits)
    next
      case True
      with Some Cons.prems obtain k where k: "py_int field = Inr k"
        and r: "read_entries rest (AList.update k row acc) = Inr entries"
        by (auto split: sum.splits)
      from Cons.IH [OF r] True Some k show ?thesis
        by (auto simp: last_event_Cons carries_def update_conv' split: option.splits)
    qed
  qed
qed

lemma read_entries_distinct:
  "read_entries reader acc = Inr entries \<Longrightarrow> distinct (map fst acc) \<Longrightarrow> distinct (map fst entries)"
proof (induction reader arbitrary: acc)
  case Nil
  then show ?case by simp
next
  case (Cons row rest)
  then show ?case
    by (auto simp: distinct_update split: option.splits if_splits sum.splits)
qed

lemma select_eligible_lookup:
  "distinct (map fst entries) \<Longrightarrow>
   map_of (select_eligible s e entries acc) idx =
     (case map_of entries idx of
        Some r \<Rightarrow> if s \<le> idx \<and> idx \<le> e \<and> level_eligible r then Some r else map_of acc idx
      | None \<Rightarrow> map_of acc idx)"
proof (induction entries arbitrary: acc)
  case Nil
  then show ?case by simp
next
  case (Cons p rest)
  obtain k r where p: "p = (k, r)" by (cases p)
  from Cons.prems p have d: "distinct (map fst rest)" and nk: "map_of rest k = None"
    by (auto simp: map_of_eq_None_iff)
  show ?case
    using Cons.IH [OF d] nk p
    by (auto simp: update_conv' split: option.splits)
qed

lemma load_resume_entries_lookup:
  assumes "read_entries reader [] = Inr entries"
  shows "map_of (load_resume_entries (Rows reader) s e) idx =
     (case last_event reader idx of
        Some r \<Rightarrow> if s \<le> idx \<and> idx \<le> e \<and> level_eligible r then Some r else None
      | None \<Rightarrow> None)"
proof -
  have d: "distinct (map fst entries)"
    using read_entries_distinct [OF assms] by simp
  show ?thesis
    using assms read_entries_lookup [OF assms, of idx] select_eligible_lookup [OF d, of s e "[]" idx]
    by (simp add: load_resume_entries_def split: option.splits)
qed

lemma read_entries_readable:
  "(\<exists>entries. read_entries reader acc = Inr entries) = list_all readable reader"
proof (induction reader arbitrary: acc)
  case Nil
  show ?case by simp
next
  case (Cons row rest)
  show ?case
  proof (cases "row_get_default row ''row_index'' []")
    case None
    then show ?thesis by (simp add: readable_def)
  next
    case (Some field)
    then show ?thesis
      using Cons.IH
      by (auto simp: readable_def py_int_def isdigit_def)
  qed
qed

lemma read_entries_skip:
  "row_get_default row ''row_index'' [] = Some field \<Longrightarrow> \<not> isdigit field \<Longrightarrow>
   read_entries (pre @ row # post) acc = read_entries (pre @ post) acc"
  by (induction pre arbitrary: acc) (auto split: option.splits sum.splits)

lemma last_event_in_reader: "last_event reader idx = Some row \<Longrightarrow> row \<in> set reader"
proof -
  assume a: "last_event reader idx = Some row"
  then have ne: "filter (carries idx) reader \<noteq> []" and l: "row = last (filter (carries idx) reader)"
    by (auto simp: last_event_def split: list.splits)
  from last_in_set [OF ne] l have "row \<in> set (filter (carries idx) reader)" by simp
  then show ?thesis by simp
qed

lemma test_log_keys: "map fst (load_resume_entries (Rows test_log) 1 3) = [1]"
  by (simp add: test_log_def log_row_def load_resume_entries_def row_get_default_def
      isdigit_def isdigit_char_def py_int_def INT_MAX_STR_DIGITS_def isdecimal_def
      level_eligible_def row_get_def RESUME_ELIGIBLE_LEVELS_def upper_def upper_char_def
      char_of_eq_iff)

lemmas resume_defs = load_resume_entries_def row_get_default_def isdigit_def isdigit_char_def
  py_int_def INT_MAX_STR_DIGITS_def isdecimal_def level_eligible_def row_get_def
  RESUME_ELIGIBLE_LEVELS_def upper_def upper_char_def char_of_eq_iff

section \<open>Facts about the orchestrator\<close>

lemmas stage_defs = append_event_def act_def after_error_def event_def

lemma new_events_same [simp]: "new_events st st = []"
  by (simp add: new_events_def)

lemma has_error_simps [simp]:
  "has_error [] = False"
  "has_error (ev # evs) = (level ev = ERROR \<or> has_error evs)"
  "has_error (xs @ ys) = (has_error xs \<or> has_error ys)"
  by (auto simp: has_error_def)

lemma row_okI:
  "logbook (snd r) = logbook st @ new \<Longrightarrow>
   (fst r = Break) = (stop_on_error options \<and> has_error new) \<Longrightarrow>
   (has_error new \<Longrightarrow> new \<noteq> [] \<and> level (last new) = ERROR) \<Longrightarrow>
   row_ok options st r"
  by (auto simp: row_ok_def new_events_def)

lemma row_ok_prepend:
  assumes r: "row_ok options st1 r"
    and l: "logbook st1 = logbook st @ pre"
    and p: "\<not> has_error pre"
  shows "row_ok options st r"
proof -
  obtain fl st' where rr: "r = (fl, st')" by (cases r)
  define new where "new = new_events st1 st'"
  from r rr have a: "logbook st' = logbook st1 @ new"
    and b: "(fl = Break) = (stop_on_error options \<and> has_error new)"
    and c: "has_error new \<Longrightarrow> new \<noteq> [] \<and> level (last new) = ERROR"
    by (auto simp: row_ok_def new_def split: if_splits)
  have "row_ok options st (fl, st')"
  proof (rule row_okI [where new = "pre @ new"])
    show "logbook (snd (fl, st')) = logbook st @ pre @ new" using a l by simp
    show "(fst (fl, st') = Break) = (stop_on_error options \<and> has_error (pre @ new))"
      using b p by simp
    assume "has_error (pre @ new)"
    with p have h: "has_error new" by simp
    from c [OF h] show "pre @ new \<noteq> [] \<and> level (last (pre @ new)) = ERROR"
      by simp
  qed
  with rr show ?thesis by simp
qed

lemma finish_row_ok: "row_ok options st (finish_row ctx ui mv form st)"
proof (cases "form = MainPage")
  case True
  then show ?thesis
    by (intro row_okI [where new = "[]"]) (simp_all add: finish_row_def Let_def stage_defs)
next
  case False
  then show ?thesis
    by (intro row_okI [where new = "[event ctx OK ''ROW_DONE'' mv ''Baris selesai diproses'' []]"])
      (simp_all add: finish_row_def Let_def stage_defs)
qed

lemma submit_handler_ok:
  "row_ok options st (submit_handler options ctx ui mv form e sh st)"
  by (auto simp: submit_handler_def Let_def stage_defs intro!: row_okI)

lemma submit_stage_ok: "row_ok options st (submit_stage options ctx ui mv form st)"
proof (cases "submit ui")
  case (Raises e)
  have "row_ok options (act [SubmitForm] st)
          (submit_handler options ctx ui mv form e (shot ui) (act [SubmitForm] st))"
    by (rule submit_handler_ok)
  then have "row_ok options st
          (submit_handler options ctx ui mv form e (shot ui) (act [SubmitForm] st))"
    by (rule row_ok_prepend [where pre = "[]"]) (simp_all add: stage_defs)
  with Raises show ?thesis by (simp add: submit_stage_def)
next
  case (Returns result)
  show ?thesis
  proof (cases "code result = ''OK''")
    case False
    with Returns show ?thesis
      by (auto simp: submit_stage_def submit_handler_def Let_def stage_defs intro!: row_okI)
  next
    case True
    let ?ev = "event ctx OK ''SUBMIT'' mv (or_else (detail result) ''Submit final sukses'') []"
    let ?st1 = "append_event ?ev (act [SubmitForm] st)"
    have "row_ok options ?st1 (finish_row ctx ui mv form ?st1)" by (rule finish_row_ok)
    then have "row_ok options st (finish_row ctx ui mv form ?st1)"
      by (rule row_ok_prepend [where pre = "[?ev]"]) (simp_all add: stage_defs)
    with True Returns show ?thesis by (simp add: submit_stage_def)
  qed
qed

lemma fill_handler_ok:
  "row_ok options st (fill_handler options ctx ui mv form e sh st)"
  by (auto simp: fill_handler_def Let_def stage_defs intro!: row_okI)

lemma fill_stage_ok: "row_ok options st (fill_stage options ctx ui mv form st)"
proof (cases "fill ui")
  case (Raises e)
  have "row_ok options (act [FillForm] st)
          (fill_handler options ctx ui mv form e (shot ui) (act [FillForm] st))"
    by (rule fill_handler_ok)
  then have "row_ok options st
          (fill_handler options ctx ui mv form e (shot ui) (act [FillForm] st))"
    by (rule row_ok_prepend [where pre = "[]"]) (simp_all add: stage_defs)
  with Raises show ?thesis by (simp add: fill_stage_def)
next
  case (Returns summary)
  show ?thesis
  proof (cases "errors summary = []")
    case False
    with Returns show ?thesis
      by (auto simp: fill_stage_def fill_handler_def Let_def stage_defs intro!: row_okI)
  next
    case True
    let ?ev = "event ctx OK ''FILL'' mv
      (''Form terisi (update='' @ str_int (updated summary) @ '', skip=''
         @ str_int (skipped summary) @ '')'') []"
    let ?st1 = "append_event ?ev (act [FillForm] st)"
    have "row_ok options ?st1 (submit_stage options ctx ui mv form ?st1)"
      by (rule submit_stage_ok)
    then have "row_ok options st (submit_stage options ctx ui mv form ?st1)"
      by (rule row_ok_prepend [where pre = "[?ev]"]) (simp_all add: stage_defs)
    with True Returns show ?thesis by (simp add: fill_stage_def Let_def)
  qed
qed

lemma lock_stage_ok: "row_ok options st (lock_stage options ctx ui mv form closed st)"
proof (cases "\<not> closed \<and> is_locked_page (lock_check ui)")
  case True
  then show ?thesis
    by (auto simp: lock_stage_def Let_def stage_defs intro!: row_okI)
next
  case False
  then show ?thesis by (auto simp: lock_stage_def fill_stage_ok)
qed

lemma final_stage_ok: "row_ok options st (final_stage options ctx ui mv form st)"
proof (cases "final_check ui")
  case (Raises e)
  then show ?thesis by (simp add: final_stage_def lock_stage_ok)
next
  case (Returns view)
  show ?thesis
  proof (cases "is_finalized_form view")
    case False
    with Returns show ?thesis by (simp add: final_stage_def lock_stage_ok)
  next
    case True
    let ?ev = "event ctx OK ''FINAL_SKIP'' mv
      ''CODE:FINAL_ALREADY_SUBMITTED Dilewati: form sudah final (tombol Cancel Submit terlihat).'' []"
    let ?st2 = "act [CloseTab] (append_event ?ev st)"
    show ?thesis
    proof (cases "form = MainPage")
      case m: False
      with True Returns show ?thesis
        by (auto simp: final_stage_def Let_def stage_defs intro!: row_okI)
    next
      case m: True
      have "row_ok options ?st2 (lock_stage options ctx ui mv form True ?st2)"
        by (rule lock_stage_ok)
      then have "row_ok options st (lock_stage options ctx ui mv form True ?st2)"
        by (rule row_ok_prepend [where pre = "[?ev]"]) (simp_all add: stage_defs)
      with m True Returns show ?thesis by (simp add: final_stage_def Let_def)
    qed
  qed
qed

lemma open_stage_ok: "row_ok options st (open_stage options ctx ui mv st)"
proof -
  obtain new_page open_note open_error where o: "open_form ui = (new_page, open_note, open_error)"
    by (cases "open_form ui")
  show ?thesis
  proof (cases new_page)
    case None
    with o show ?thesis
      by (auto simp: open_stage_def Let_def stage_defs intro!: row_okI)
  next
    case (Some p)
    let ?st1 = "act ((case ya_edit_count ui of
                       Some n \<Rightarrow> if n > 0 then [ConfirmEdit] else []
                     | None \<Rightarrow> []) @ [OpenForm] @ replicate (extra_pages ui) CloseTab) st"
    let ?ev = "event ctx OK ''OPEN_TAB'' mv open_note []"
    show ?thesis
    proof (cases "open_note = []")
      case True
      have "row_ok options ?st1 (final_stage options ctx ui mv p ?st1)" by (rule final_stage_ok)
      then have "row_ok options st (final_stage options ctx ui mv p ?st1)"
        by (rule row_ok_prepend [where pre = "[]"]) (simp_all add: stage_defs)
      with True Some o show ?thesis by (simp add: open_stage_def Let_def)
    next
      case False
      have "row_ok options (append_event ?ev ?st1)
              (final_stage options ctx ui mv p (append_event ?ev ?st1))"
        by (rule final_stage_ok)
      then have "row_ok options st (final_stage options ctx ui mv p (append_event ?ev ?st1))"
        by (rule row_ok_prepend [where pre = "[?ev]"]) (simp_all add: stage_defs)
      with False Some o show ?thesis by (simp add: open_stage_def Let_def)
    qed
  qed
qed

lemma click_failed_ok: "row_ok options st (click_failed options ctx ui mv label msg error_code st)"
  by (auto simp: click_failed_def Let_def stage_defs intro!: row_okI)

lemma row_ok_acts: "row_ok options (act acts st) r \<Longrightarrow> row_ok options st r"
  by (erule row_ok_prepend [where pre = "[]"]) (simp_all add: act_def)

lemma click_stage_ok: "row_ok options st (click_stage options ctx ui mv st)"
proof -
  obtain r acts where c: "click_edit options ctx ui mv = (r, acts)"
    by (cases "click_edit options ctx ui mv")
  show ?thesis
  proof (cases r)
    case (Raises e)
    with c show ?thesis
      by (simp add: click_stage_def row_ok_acts [OF click_failed_ok])
  next
    case (Returns clicked)
    show ?thesis
    proof (cases "clicked")
      case False
      with Returns c show ?thesis
        by (simp add: click_stage_def row_ok_acts [OF click_failed_ok])
    next
      case True
      show ?thesis
      proof (cases "dry_run options")
        case d: True
        with True Returns c show ?thesis
          by (auto simp: click_stage_def Let_def stage_defs intro!: row_okI)
      next
        case d: False
        with True Returns c show ?thesis
          by (simp add: click_stage_def row_ok_acts [OF open_stage_ok])
      qed
    qed
  qed
qed

lemma resume_skip_ok: "row_ok options st (resume_skip ctx prev st)"
  by (auto simp: resume_skip_def Let_def stage_defs intro!: row_okI)

text \<open>
  Whatever the page the form opened in: the body breaks exactly when
  \<open>stop_on_error\<close> is set and the row logged an error, and then no later row is
  processed.
\<close>

lemma process_row_ok: "row_ok options st (process_row options ctx ui st)"
  by (simp add: process_row_def resume_skip_ok click_stage_ok split: option.splits)

lemma stop_on_error_row_halts:
  assumes "stop_on_error options"
    and "has_error (new_events st (snd (process_row options ctx (ui ctx) st)))"
  shows "process_rows options ui (ctx # contexts) st = snd (process_row options ctx (ui ctx) st)"
proof -
  obtain fl st' where p: "process_row options ctx (ui ctx) st = (fl, st')"
    by (cases "process_row options ctx (ui ctx) st")
  from process_row_ok [of options st ctx "ui ctx"] p assms have "fl = Break"
    by (simp add: row_ok_def)
  with p show ?thesis by simp
qed

text \<open>Only a form that opened in the tab of the table makes the body raise.\<close>

lemma final_stage_no_abort:
  "form \<noteq> MainPage \<Longrightarrow> \<not> is_abort (fst (final_stage options ctx ui mv form st))"
  by (auto simp: final_stage_def lock_stage_def fill_stage_def fill_handler_def submit_stage_def
      submit_handler_def finish_row_def after_error_def Let_def
      split: outcome.splits)

lemma process_row_no_abort:
  "fst (open_form ui) \<noteq> Some MainPage \<Longrightarrow> \<not> is_abort (fst (process_row options ctx ui st))"
  by (cases "open_form ui")
    (auto simp: process_row_def resume_skip_def click_stage_def click_failed_def open_stage_def
      after_error_def Let_def final_stage_no_abort
      split: option.splits prod.splits outcome.splits)

lemmas ui_defs = smooth_ui_def finalized_ui_def locked_ui_def missing_ui_def by_index_def
  initial_run_def sample_ctx_def same_tab_def locked_same_tab_ui_def finalized_same_tab_ui_def

lemmas row_defs = process_row_def click_stage_def click_edit_def click_edit_by_index_def
  click_failed_def open_stage_def final_stage_def lock_stage_def fill_stage_def submit_stage_def
  fill_handler_def submit_handler_def finish_row_def is_finalized_form_def is_locked_page_def format_match_value_def
  append_event_def act_def after_error_def event_def Let_def context_from_row_indices

lemma any_visible_set: "any_visible candidates = (Visible \<in> set candidates)"
  by (induction candidates rule: any_visible.induct) auto

lemma new_actions_same [simp]: "new_actions st st = []"
  by (simp add: new_actions_def)

lemma click_edit_by_index_dry: "snd (click_edit_by_index view index0 False) = []"
  by (simp add: click_edit_by_index_def split: option.splits)

lemma try_variants_dry: "list_all (\<lambda>a. \<not> touches_form a) (snd (try_variants vs False))"
  by (induction vs) (auto simp: Let_def split: option.splits prod.splits)

lemma click_edit_dry:
  "dry_run options \<Longrightarrow> list_all (\<lambda>a. \<not> touches_form a) (snd (click_edit options ctx ui mv))"
  by (simp add: click_edit_def click_edit_by_index_dry click_edit_by_text_def try_variants_dry
      split: option.splits)

lemma dry_run_row:
  assumes d: "dry_run options"
  shows "let mv = format_match_value ctx (match_by options);
        r = process_row options ctx (ui ctx) st;
        new = new_events st (snd r)
    in logbook (snd r) = logbook st @ new
       \<and> list_all (\<lambda>a. \<not> touches_form a) (new_actions st (snd r))
       \<and> (case (if resume options then map_of (resume_entries st) (display_index ctx) else None) of
             Some prev \<Rightarrow>
               map stage new = [''RESUME_SKIP''] \<and> map level new = [OK] \<and> fst r = Continue
               \<and> skipped_rows (snd r) = Suc (skipped_rows st)
               \<and> ok_rows (snd r) = ok_rows st \<and> error_rows (snd r) = error_rows st
           | None \<Rightarrow>
               (case fst (click_edit options ctx (ui ctx) mv) of
                  Returns found \<Rightarrow>
                    if found
                    then new = [event ctx OK ''DRY_RUN'' mv
                                  ''Tombol Edit ditemukan (dry-run, form tidak dibuka).'' []]
                         \<and> fst r = Continue
                         \<and> ok_rows (snd r) = Suc (ok_rows st)
                         \<and> skipped_rows (snd r) = skipped_rows st
                         \<and> error_rows (snd r) = error_rows st
                    else map stage new = [''CLICK_EDIT''] \<and> map level new = [ERROR]
                         \<and> fst r = after_error options
                         \<and> error_rows (snd r) = Suc (error_rows st)
                         \<and> ok_rows (snd r) = ok_rows st
                         \<and> skipped_rows (snd r) = skipped_rows st
                | Raises e \<Rightarrow>
                    map stage new = [''CLICK_EDIT''] \<and> map level new = [ERROR]
                    \<and> fst r = after_error options
                    \<and> error_rows (snd r) = Suc (error_rows st)
                    \<and> ok_rows (snd r) = ok_rows st
                    \<and> skipped_rows (snd r) = skipped_rows st))"
proof (cases "if resume options then map_of (resume_entries st) (display_index ctx) else None")
  case (Some prev)
  then show ?thesis
    by (simp add: process_row_def resume_skip_def Let_def new_events_def new_actions_def stage_defs)
next
  case None
  let ?mv = "format_match_value ctx (match_by options)"
  obtain res acts where c: "click_edit options ctx (ui ctx) ?mv = (res, acts)"
    by (cases "click_edit options ctx (ui ctx) ?mv")
  from click_edit_dry [OF d, of ctx "ui ctx" ?mv] c
  have nt: "list_all (\<lambda>a. \<not> touches_form a) acts" by simp
  show ?thesis
  proof (cases res)
    case (Raises e)
    with None c nt show ?thesis
      by (simp add: process_row_def click_stage_def click_failed_def Let_def new_events_def
          new_actions_def stage_defs)
  next
    case (Returns found)
    with None c nt d show ?thesis
      by (simp add: process_row_def click_stage_def click_failed_def Let_def new_events_def
          new_actions_def stage_defs)
  qed
qed

lemma dry_run_all_found:
  assumes d: "dry_run options" and nr: "\<not> resume options"
  shows "list_all (\<lambda>ctx. fst (click_edit options ctx (ui ctx)
                 (format_match_value ctx (match_by options))) = Returns True) contexts \<Longrightarrow>
    list_all (\<lambda>a. \<not> touches_form a) (actions st) \<Longrightarrow>
    (let st' = process_rows options ui contexts st
     in ok_rows st' = ok_rows st + length contexts
        \<and> error_rows st' = error_rows st
        \<and> skipped_rows st' = skipped_rows st
        \<and> logbook st' = logbook st @ map (\<lambda>ctx. event ctx OK ''DRY_RUN''
              (format_match_value ctx (match_by options))
              ''Tombol Edit ditemukan (dry-run, form tidak dibuka).'' []) contexts
        \<and> list_all (\<lambda>a. \<not> touches_form a) (actions st'))"
proof (induction contexts arbitrary: st)
  case Nil
  then show ?case by simp
next
  case (Cons ctx contexts)
  let ?mv = "format_match_value ctx (match_by options)"
  define r where "r = process_row options ctx (ui ctx) st"
  from Cons.prems(1) have f: "fst (click_edit options ctx (ui ctx) ?mv) = Returns True"
    and rest: "list_all (\<lambda>ctx. fst (click_edit options ctx (ui ctx)
                 (format_match_value ctx (match_by options))) = Returns True) contexts"
    by simp_all
  from dry_run_row [OF d, of ctx ui st] nr f
  have l: "logbook (snd r) = logbook st @ [event ctx OK ''DRY_RUN'' ?mv
                                  ''Tombol Edit ditemukan (dry-run, form tidak dibuka).'' []]"
    and c: "fst r = Continue"
    and k: "ok_rows (snd r) = Suc (ok_rows st)" "skipped_rows (snd r) = skipped_rows st"
      "error_rows (snd r) = error_rows st"
    and na: "list_all (\<lambda>a. \<not> touches_form a) (new_actions st (snd r))"
    by (simp_all add: Let_def r_def)
  obtain acts where ac: "actions (snd r) = actions st @ acts"
    using nr f d
    by (cases "click_edit options ctx (ui ctx) ?mv")
      (auto simp: r_def process_row_def click_stage_def Let_def stage_defs)
  with na Cons.prems(2) have a: "list_all (\<lambda>a. \<not> touches_form a) (actions (snd r))"
    by (simp add: new_actions_def)
  have p: "process_rows options ui (ctx # contexts) st = process_rows options ui contexts (snd r)"
    using c by (cases r) (simp add: r_def)
  from Cons.IH [OF rest a] l k p show ?case
    by (simp add: Let_def)
qed

lemma sample_df_valid: "validate_columns ''index'' sample_df = None"
  by code_simp

lemma sample_rows_1_2:
  "load_rows sample_df ''index'' None (Some 2) = Inr ([sample_ctx 1, sample_ctx 2], 1, 2)"
proof -
  have u: "[0..(1::int)] = [0, 1]" by (simp add: upto_rec1)
  have n: "length (rows sample_df) = 3" by (simp add: sample_df_def)
  show ?thesis
    by (simp add: load_rows_def sample_df_valid slice_rows_def n u iloc_def sample_ctx_def)
qed

lemma test_log_entries_1_2:
  "load_resume_entries (Rows test_log) 1 2 = [(1, log_row ''1'' ''OK'' ''ok'')]"
  by (simp add: test_log_def log_row_def resume_defs)

lemma sample_ctx_indices:
  "table_index (sample_ctx i) = i - 1"
  "display_index (sample_ctx i) = i"
  by (simp_all add: sample_ctx_def context_from_row_indices)

section \<open>Phone normalisation\<close>

text \<open>
  C8. For every input value \<open>x\<close>, \<open>norm_phone x\<close> is the sequence of the digit
  characters of \<open>x\<close> (of its text), in their order, so it consists of digits only;
  and normalising the result again gives the same string.
\<close>

theorem norm_phone_digits_idempotent:
  "norm_phone x = filter isdecimal (str_of x)
   \<and> list_all isdecimal (norm_phone x)
   \<and> norm_phone (PyStr (norm_phone x)) = norm_phone x"
  by (simp add: norm_phone_digits list_all_iff)

section \<open>Status normalisation\<close>

text \<open>
  C6. For every status string \<open>s\<close>: when \<open>s\<close> is a key of the numeric table, whose
  keys are the numerals 1 to 11, the result is the label the table gives it;
  otherwise the result is the alias table's label for the lower-case form of \<open>s\<close>
  when that form is a key there, and \<open>s\<close> itself when it is not. The alias
  \<open>belum berproduksi\<close> gives \<open>Belum Beroperasi/Berproduksi\<close>.
\<close>

theorem normalize_status_tables:
  "normalize_status s =
     (case map_of STATUS_NUMERIC_MAP s of
        Some label \<Rightarrow> label
      | None \<Rightarrow> (case map_of STATUS_NORMALIZATION (lower s) of
                   Some canon \<Rightarrow> canon
                 | None \<Rightarrow> s))
   \<and> map fst STATUS_NUMERIC_MAP = map str_int [1..11]
   \<and> normalize_status ''belum berproduksi'' = ''Belum Beroperasi/Berproduksi''"
proof (intro conjI)
  show "normalize_status s =
     (case map_of STATUS_NUMERIC_MAP s of
        Some label \<Rightarrow> label
      | None \<Rightarrow> (case map_of STATUS_NORMALIZATION (lower s) of
                   Some canon \<Rightarrow> canon
                 | None \<Rightarrow> s))"
  proof (cases "map_of STATUS_NUMERIC_MAP s")
    case None
    have "s = [] \<Longrightarrow> ?thesis"
      by (simp add: normalize_status_def lower_def STATUS_NORMALIZATION_def
          STATUS_NUMERIC_MAP_def)
    moreover have "s \<noteq> [] \<Longrightarrow> ?thesis"
      using None by (simp add: normalize_status_def Let_def strip_isdigit)
    ultimately show ?thesis by blast
  next
    case (Some label)
    from numeric_keys [OF Some] Some show ?thesis
      by (simp add: normalize_status_def Let_def strip_isdigit)
  qed
  show "map fst STATUS_NUMERIC_MAP = map str_int [1..11]"
    by code_simp
  show "normalize_status ''belum berproduksi'' = ''Belum Beroperasi/Berproduksi''"
    by code_simp
qed

section \<open>The retry helper\<close>



text \<open>
  C10. With an attempt budget of zero or less, \<open>with_retry\<close> returns \<^verbatim>\<open>None\<close>, does
  not call the operation (the state is unchanged) and raises nothing.
\<close>

theorem with_retry_no_attempts:
  "attempts \<le> 0 \<Longrightarrow> with_retry fn attempts s = (Returns None, s)"
  by (simp add: with_retry_def after_loop_def)

theorem with_retry_no_attempts_witness:
  "with_retry failing 0 0 = (Returns None, 0) \<and> with_retry failing (- 2) 0 = (Returns None, 0)"
  using with_retry_no_attempts [of 0 failing 0] with_retry_no_attempts [of "- 2" failing 0]
  by simp

section \<open>Row loading\<close>

text \<open>
  C5. For every dataframe of \<open>n\<close> rows whose columns pass validation, and every
  requested range: \<open>slice_rows\<close> gives the bounds \<open>max (start - 1) 0\<close> (0 when no start
  is given) and \<open>min end n\<close> (\<open>n\<close> when no end is given); \<open>load_rows\<close> returns one
  context for each position \<open>i\<close> from the lower bound up to, not including, the upper
  bound, in order, built from row \<open>i\<close> of the frame with table index \<open>i\<close> and display
  index \<open>i + 1\<close>.
\<close>

theorem load_rows_range:
  "validate_columns strategy df = None \<Longrightarrow>
   (let n = int (length (rows df));
        lo = (case first_row of None \<Rightarrow> 0 | Some s \<Rightarrow> max (s - 1) 0);
        hi = (case last_row of None \<Rightarrow> n | Some e \<Rightarrow> min e n)
    in slice_rows n first_row last_row = (lo, hi)
       \<and> (\<exists>contexts end_display.
             load_rows df strategy first_row last_row = Inr (contexts, lo + 1, end_display)
             \<and> contexts = map (\<lambda>i. context_from_row (rows df ! nat i) i (i + 1)) [lo..hi - 1]
             \<and> map table_index contexts = [lo..hi - 1]
             \<and> map display_index contexts = map (\<lambda>i. i + 1) [lo..hi - 1]))"
proof -
  assume v: "validate_columns strategy df = None"
  define n where "n = int (length (rows df))"
  define lo where "lo = (case first_row of None \<Rightarrow> 0 | Some s \<Rightarrow> max (s - 1) 0)"
  define hi where "hi = (case last_row of None \<Rightarrow> n | Some e \<Rightarrow> min e n)"
  have lo0: "0 \<le> lo" by (simp add: lo_def split: option.splits)
  have hin: "hi \<le> n" by (simp add: hi_def split: option.splits)
  have sl: "slice_rows n first_row last_row = (lo, hi)"
    by (simp add: slice_rows_def lo_def hi_def)
  have "\<forall>i \<in> set [lo..hi - 1]. 0 \<le> i \<and> i < int (length (rows df))"
    using lo0 hin by (auto simp: n_def)
  from build_contexts_in_range [OF this]
  have bc: "build_contexts df [lo..hi - 1]
      = Inr (map (\<lambda>i. context_from_row (rows df ! nat i) i (i + 1)) [lo..hi - 1])" .
  have sel: "map table_index (map (\<lambda>i. context_from_row (rows df ! nat i) i (i + 1)) xs) = xs"
    "map display_index (map (\<lambda>i. context_from_row (rows df ! nat i) i (i + 1)) xs)
       = map (\<lambda>i. i + 1) xs" for xs
    by (simp_all add: context_from_row_indices comp_def)
  have "load_rows df strategy first_row last_row
      = Inr (map (\<lambda>i. context_from_row (rows df ! nat i) i (i + 1)) [lo..hi - 1], lo + 1,
             if hi \<noteq> 0 then hi else n)"
    using v sl bc by (simp add: load_rows_def n_def [symmetric])
  with sl sel show ?thesis
    unfolding Let_def n_def [symmetric] lo_def [symmetric] hi_def [symmetric] by blast
qed

theorem load_rows_range_witness:
  "validate_columns ''index'' sample_df = None
   \<and> slice_rows 3 (Some 2) None = (1, 3)
   \<and> (\<exists>contexts end_display.
         load_rows sample_df ''index'' (Some 2) None = Inr (contexts, 2, end_display)
         \<and> map table_index contexts = [1, 2]
         \<and> map display_index contexts = [2, 3])"
proof -
  have v: "validate_columns ''index'' sample_df = None"
    by code_simp
  have l: "length (rows sample_df) = 3"
    by (simp add: sample_df_def)
  have u: "[1..(2::int)] = [1, 2]"
    by (simp add: upto_rec1)
  from load_rows_range [OF v, of "Some 2" None] show ?thesis
    by (auto simp: v l u Let_def context_from_row_indices)
qed

section \<open>Resume eligibility\<close>

text \<open>
  C1. The claim is that, for every log file of a previous run,
  \<open>load_resume_entries\<close> selects exactly the rows whose display index lies in the
  requested inclusive range and whose recorded level is \<open>OK\<close>. For the log of a run
  with events at the display indices 1 (OK), 2 (ERROR) and 5 (OK) and the range
  from 1 to 3 the code selects exactly \<open>{1}\<close>. When the same log ends with a line that
  was cut after its time stamp, the code selects nothing: the row has \<^verbatim>\<open>None\<close> under
  \<open>row_index\<close>, \<^verbatim>\<open>None.isdigit()\<close> raises \<^verbatim>\<open>AttributeError\<close>, and the handler returns
  the empty dictionary.
\<close>

theorem cut_line_empties_selection:
  "map fst (load_resume_entries (Rows run_log) 1 3) = [1]
   \<and> read_entries (run_log @ [short_row]) [] = Inl AttributeError
   \<and> load_resume_entries (Rows (run_log @ [short_row])) 1 3 = []"
  by (simp add: run_log_def event_row_def short_row_def resume_defs)

text \<open>
  C9. The claim is that the eligibility of a row is decided by the last event in
  file order that carries its row index, and that a row of the log whose
  \<open>row_index\<close> is not a digit string is ignored entirely. The row of a line cut after
  its time stamp has no digit string under \<open>row_index\<close>, and the code does not ignore
  it: without it the event of display index 7 is eligible, with it the read
  raises and nothing is.
\<close>

theorem cut_line_not_ignored:
  "row_get_default short_row ''row_index'' [] = None
   \<and> load_resume_entries (Rows [event_row ''20250101_101458'' ''7'' ''OK'' ''ROW_DONE'']) 7 7
       = [(7, event_row ''20250101_101458'' ''7'' ''OK'' ''ROW_DONE'')]
   \<and> load_resume_entries
         (Rows [event_row ''20250101_101458'' ''7'' ''OK'' ''ROW_DONE'', short_row]) 7 7 = []"
  by (simp add: event_row_def short_row_def resume_defs)

section \<open>Stop on error\<close>

text \<open>
  For a form in a tab of its own a locked form is a warning and nothing more: one
  \<open>WARN\<close> event, the row counted as skipped, and the loop goes on, whatever
  \<open>stop_on_error\<close> is.
\<close>

lemma locked_new_tab_continues:
  assumes "is_locked_page (lock_check ui)" and "form \<noteq> MainPage"
  shows "fst (lock_stage options ctx ui mv form False st) = Continue"
    and "map level (new_events st (snd (lock_stage options ctx ui mv form False st))) = [WARN]"
    and "skipped_rows (snd (lock_stage options ctx ui mv form False st)) = Suc (skipped_rows st)"
  using assms by (simp_all add: lock_stage_def Let_def new_events_def stage_defs)

text \<open>
  C2. The claim is that under \<open>stop_on_error\<close> no row after the first error is
  processed, and that a row whose only adverse event is a \<open>WARN\<close>, such as a locked
  form, never halts the run. The first half holds (\<open>stop_on_error_row_halts\<close>). The
  second fails when the locked form opened in the tab of the table: the row logs
  \<open>OPEN_TAB\<close> at level \<open>OK\<close> and \<open>ACCESS\<close> at level \<open>WARN\<close>, the body closes the page of the
  table and \<^verbatim>\<open>bring_to_front\<close> raises outside any \<^verbatim>\<open>try\<close>. The row is not counted, the
  second row is never processed and \<^verbatim>\<open>process_autofill\<close> ends with the exception,
  with \<open>stop_on_error\<close> and without it.
\<close>

theorem locked_same_tab_ends_run:
  "fst (process_row (by_index False False False) (sample_ctx 1) locked_same_tab_ui (initial_run []))
     = Abort (''TargetClosedError'', ''Target page, context or browser has been closed'')
   \<and> map (\<lambda>ev. (stage ev, level ev))
        (logbook (snd (process_row (by_index False False False) (sample_ctx 1)
           locked_same_tab_ui (initial_run []))))
     = [(''OPEN_TAB'', OK), (''ACCESS'', WARN)]
   \<and> skipped_rows (snd (process_row (by_index False False False) (sample_ctx 1)
        locked_same_tab_ui (initial_run []))) = 0
   \<and> map (\<lambda>ev. (row_index ev, stage ev, level ev))
        (logbook (process_rows (by_index False False False) (\<lambda>ctx. locked_same_tab_ui)
           [sample_ctx 1, sample_ctx 2] (initial_run [])))
     = [(1, ''OPEN_TAB'', OK), (1, ''ACCESS'', WARN)]
   \<and> map_sum id fst (process_autofill ((by_index False False False)\<lparr> end_row := Some 2 \<rparr>)
        sample_df Missing None (\<lambda>ctx. locked_same_tab_ui))
     = Inl (Uncaught (''TargetClosedError'', ''Target page, context or browser has been closed''))
   \<and> map_sum id fst (process_autofill ((by_index True False False)\<lparr> end_row := Some 2 \<rparr>)
        sample_df Missing None (\<lambda>ctx. locked_same_tab_ui))
     = Inl (Uncaught (''TargetClosedError'', ''Target page, context or browser has been closed''))"
  by (simp add: process_autofill_def sample_rows_1_2 ui_defs locked_ui_def row_defs
      sample_ctx_indices)

section \<open>Finalized forms\<close>

text \<open>
  For a form in a tab of its own that is already final (the cancel-submit control
  is visible and no submit-final control is) the stage logs exactly one
  \<open>FINAL_SKIP\<close> event at level \<open>OK\<close>, counts the row as skipped and neither as ok nor
  as error, and goes on with the next row.
\<close>

lemma finalized_new_tab_skipped:
  assumes "final_check ui = Returns view" and "cancel_btn view = Visible"
    and "Visible \<notin> set (submit_candidates view)" and "form \<noteq> MainPage"
  shows "fst (final_stage options ctx ui mv form st) = Continue"
    and "new_events st (snd (final_stage options ctx ui mv form st))
           = [event ctx OK ''FINAL_SKIP'' mv
                ''CODE:FINAL_ALREADY_SUBMITTED Dilewati: form sudah final (tombol Cancel Submit terlihat).''
                []]"
    and "skipped_rows (snd (final_stage options ctx ui mv form st)) = Suc (skipped_rows st)"
    and "ok_rows (snd (final_stage options ctx ui mv form st)) = ok_rows st"
    and "error_rows (snd (final_stage options ctx ui mv form st)) = error_rows st"
  using assms
  by (simp_all add: final_stage_def is_finalized_form_def any_visible_set Let_def
      new_events_def stage_defs)

text \<open>
  C4. The claim is that every row whose opened form is already final logs exactly
  one \<open>FINAL_SKIP\<close> event at level \<open>OK\<close>, is counted as skipped and not as ok or error,
  and that the loop then continues with the next row. It fails when the form
  opened in the tab of the table. The body logs \<open>FINAL_SKIP\<close> and closes the page of
  the table; \<^verbatim>\<open>bring_to_front\<close> raises inside the \<^verbatim>\<open>try\<close> of the check, whose handler
  only prints, so the count and the \<^verbatim>\<open>continue\<close> are skipped. The body goes on to
  fill the closed page: the row logs \<open>FILL\<close> at level \<open>ERROR\<close> and is counted as error,
  not as skipped, and the run ends there, by \<^verbatim>\<open>break\<close> under \<open>stop_on_error\<close> and by
  the exception of the next \<^verbatim>\<open>bring_to_front\<close> without it.
\<close>

theorem finalized_same_tab_not_skipped:
  "final_check finalized_same_tab_ui
     = Returns \<lparr> cancel_btn = Visible, submit_candidates = [Hidden, ProbeRaises] \<rparr>
   \<and> is_finalized_form \<lparr> cancel_btn = Visible, submit_candidates = [Hidden, ProbeRaises] \<rparr>
   \<and> map (\<lambda>ev. (stage ev, level ev))
        (logbook (snd (process_row (by_index False False False) (sample_ctx 1)
           finalized_same_tab_ui (initial_run []))))
     = [(''OPEN_TAB'', OK), (''FINAL_SKIP'', OK), (''FILL'', ERROR)]
   \<and> skipped_rows (snd (process_row (by_index False False False) (sample_ctx 1)
        finalized_same_tab_ui (initial_run []))) = 0
   \<and> ok_rows (snd (process_row (by_index False False False) (sample_ctx 1)
        finalized_same_tab_ui (initial_run []))) = 0
   \<and> error_rows (snd (process_row (by_index False False False) (sample_ctx 1)
        finalized_same_tab_ui (initial_run []))) = 1
   \<and> fst (process_row (by_index False False False) (sample_ctx 1) finalized_same_tab_ui
        (initial_run []))
     = Abort (''TargetClosedError'', ''Target page, context or browser has been closed'')
   \<and> fst (process_row (by_index True False False) (sample_ctx 1) finalized_same_tab_ui
        (initial_run [])) = Break
   \<and> map row_index (logbook (process_rows (by_index False False False)
        (\<lambda>ctx. finalized_same_tab_ui) [sample_ctx 1, sample_ctx 2] (initial_run [])))
     = [1, 1, 1]"
  by (simp add: ui_defs row_defs sample_ctx_indices)

section \<open>Dry run\<close>

text \<open>
  C3, as the code has it. In a run with \<open>dry_run\<close> set, a row the loop reaches does
  nothing to a form: no edit control is clicked, no dialog confirmed, no form
  opened, filled or submitted, no tab closed. A row found among the resume
  entries logs one \<open>RESUME_SKIP\<close> event and counts as skipped. Every other row
  either fails at the detection of its edit control (one \<open>CLICK_EDIT\<close> event at
  level \<open>ERROR\<close>, counted as error, and the loop halts there under
  \<open>stop_on_error\<close>) or logs exactly one \<open>DRY_RUN\<close> event at level \<open>OK\<close> and counts as
  ok. So a dry run without resume in which every edit control is found logs one
  \<open>DRY_RUN\<close> event for each row and counts every row as ok: two rows give the
  counts ok 2, error 0, skip 0.
\<close>

theorem dry_run_only_verifies:
  "dry_run options \<Longrightarrow>
   (let mv = format_match_value ctx (match_by options);
        r = process_row options ctx (ui ctx) st;
        new = new_events st (snd r)
    in logbook (snd r) = logbook st @ new
       \<and> list_all (\<lambda>a. \<not> touches_form a) (new_actions st (snd r))
       \<and> (case (if resume options then map_of (resume_entries st) (display_index ctx) else None) of
             Some prev \<Rightarrow>
               map stage new = [''RESUME_SKIP''] \<and> map level new = [OK] \<and> fst r = Continue
               \<and> skipped_rows (snd r) = Suc (skipped_rows st)
               \<and> ok_rows (snd r) = ok_rows st \<and> error_rows (snd r) = error_rows st
           | None \<Rightarrow>
               (case fst (click_edit options ctx (ui ctx) mv) of
                  Returns found \<Rightarrow>
                    if found
                    then new = [event ctx OK ''DRY_RUN'' mv
                                  ''Tombol Edit ditemukan (dry-run, form tidak dibuka).'' []]
                         \<and> fst r = Continue
                         \<and> ok_rows (snd r) = Suc (ok_rows st)
                         \<and> skipped_rows (snd r) = skipped_rows st
                         \<and> error_rows (snd r) = error_rows st
                    else map stage new = [''CLICK_EDIT''] \<and> map level new = [ERROR]
                         \<and> fst r = after_error options
                         \<and> error_rows (snd r) = Suc (error_rows st)
                         \<and> ok_rows (snd r) = ok_rows st
                         \<and> skipped_rows (snd r) = skipped_rows st
                | Raises e \<Rightarrow>
                    map stage new = [''CLICK_EDIT''] \<and> map level new = [ERROR]
                    \<and> fst r = after_error options
                    \<and> error_rows (snd r) = Suc (error_rows st)
                    \<and> ok_rows (snd r) = ok_rows st
                    \<and> skipped_rows (snd r) = skipped_rows st)))
   \<and> (\<not> resume options
        \<and> list_all (\<lambda>c. fst (click_edit options c (ui c) (format_match_value c (match_by options)))
                         = Returns True) contexts \<longrightarrow>
        (let st' = process_rows options ui contexts (initial_run entries)
         in ok_rows st' = length contexts \<and> error_rows st' = 0 \<and> skipped_rows st' = 0
            \<and> map stage (logbook st') = replicate (length contexts) ''DRY_RUN''
            \<and> map level (logbook st') = replicate (length contexts) OK
            \<and> list_all (\<lambda>a. \<not> touches_form a) (actions st')))"
proof (intro conjI impI)
  assume d: "dry_run options"
  from dry_run_row [OF d, of ctx ui st]
  show "let mv = format_match_value ctx (match_by options);
        r = process_row options ctx (ui ctx) st;
        new = new_events st (snd r)
    in logbook (snd r) = logbook st @ new
       \<and> list_all (\<lambda>a. \<not> touches_form a) (new_actions st (snd r))
       \<and> (case (if resume options then map_of (resume_entries st) (display_index ctx) else None) of
             Some prev \<Rightarrow>
               map stage new = [''RESUME_SKIP''] \<and> map level new = [OK] \<and> fst r = Continue
               \<and> skipped_rows (snd r) = Suc (skipped_rows st)
               \<and> ok_rows (snd r) = ok_rows st \<and> error_rows (snd r) = error_rows st
           | None \<Rightarrow>
               (case fst (click_edit options ctx (ui ctx) mv) of
                  Returns found \<Rightarrow>
                    if found
                    then new = [event ctx OK ''DRY_RUN'' mv
                                  ''Tombol Edit ditemukan (dry-run, form tidak dibuka).'' []]
                         \<and> fst r = Continue
                         \<and> ok_rows (snd r) = Suc (ok_rows st)
                         \<and> skipped_rows (snd r) = skipped_rows st
                         \<and> error_rows (snd r) = error_rows st
                    else map stage new = [''CLICK_EDIT''] \<and> map level new = [ERROR]
                         \<and> fst r = after_error options
                         \<and> error_rows (snd r) = Suc (error_rows st)
                         \<and> ok_rows (snd r) = ok_rows st
                         \<and> skipped_rows (snd r) = skipped_rows st
                | Raises e \<Rightarrow>
                    map stage new = [''CLICK_EDIT''] \<and> map level new = [ERROR]
                    \<and> fst r = after_error options
                    \<and> error_rows (snd r) = Suc (error_rows st)
                    \<and> ok_rows (snd r) = ok_rows st
                    \<and> skipped_rows (snd r) = skipped_rows st))" .
next
  assume d: "dry_run options"
    and a: "\<not> resume options
        \<and> list_all (\<lambda>c. fst (click_edit options c (ui c) (format_match_value c (match_by options)))
                         = Returns True) contexts"
  from a have nr: "\<not> resume options" and f: "list_all (\<lambda>c. fst (click_edit options c (ui c)
       (format_match_value c (match_by options))) = Returns True) contexts"
    by simp_all
  have i: "list_all (\<lambda>a. \<not> touches_form a) (actions (initial_run entries))"
    by (simp add: initial_run_def)
  from dry_run_all_found [OF d nr f i]
  show "let st' = process_rows options ui contexts (initial_run entries)
         in ok_rows st' = length contexts \<and> error_rows st' = 0 \<and> skipped_rows st' = 0
            \<and> map stage (logbook st') = replicate (length contexts) ''DRY_RUN''
            \<and> map level (logbook st') = replicate (length contexts) OK
            \<and> list_all (\<lambda>a. \<not> touches_form a) (actions st')"
    by (simp add: Let_def initial_run_def event_def comp_def map_replicate_const)
qed

theorem dry_run_only_verifies_witness:
  "map_sum id fst (process_autofill ((by_index False False True)\<lparr> end_row := Some 2 \<rparr>)
       sample_df Missing None (\<lambda>ctx. smooth_ui))
     = Inr \<lparr> success_count = 2, error_count = 0, skip_count = 0, last_errors = [] \<rparr>
   \<and> map_sum id (\<lambda>r. map stage (logbook (snd r)))
        (process_autofill ((by_index False False True)\<lparr> end_row := Some 2 \<rparr>)
           sample_df Missing None (\<lambda>ctx. smooth_ui))
     = Inr [''DRY_RUN'', ''DRY_RUN'']
   \<and> map_sum id (\<lambda>r. list_all (\<lambda>a. \<not> touches_form a) (actions (snd r)))
        (process_autofill ((by_index False False True)\<lparr> end_row := Some 2 \<rparr>)
           sample_df Missing None (\<lambda>ctx. smooth_ui))
     = Inr True
   \<and> map stage (logbook (snd (process_row (by_index False False True) (sample_ctx 1) missing_ui
        (initial_run [])))) = [''CLICK_EDIT'']
   \<and> error_rows (snd (process_row (by_index False False True) (sample_ctx 1) missing_ui
        (initial_run []))) = 1"
proof -
  let ?opts = "(by_index False False True)\<lparr> end_row := Some 2 \<rparr>"
  let ?ui = "\<lambda>ctx::RowContext. smooth_ui"
  let ?cs = "[sample_ctx 1, sample_ctx 2]"
  have d: "dry_run ?opts" by (simp add: by_index_def)
  have nr: "\<not> resume ?opts
     \<and> list_all (\<lambda>c. fst (click_edit ?opts c (?ui c) (format_match_value c (match_by ?opts)))
                    = Returns True) ?cs"
    by (simp add: ui_defs click_edit_def click_edit_by_index_def context_from_row_indices)
  have ab: "aborted (process_rows ?opts ?ui ?cs (initial_run [])) = None"
    by (simp add: ui_defs row_defs)
  have run: "process_autofill ?opts sample_df Missing None ?ui
      = (let st = process_rows ?opts ?ui ?cs (initial_run [])
         in Inr (\<lparr> success_count = ok_rows st, error_count = error_rows st,
                    skip_count = skipped_rows st,
                    last_errors = drop (length (recent_errors st) - 5) (recent_errors st) \<rparr>, st))"
    using ab by (simp add: process_autofill_def by_index_def sample_rows_1_2 initial_run_def)
  have re: "recent_errors (process_rows ?opts ?ui ?cs (initial_run [])) = []"
    by (simp add: ui_defs row_defs)
  have d1: "dry_run (by_index False False True)" by (simp add: by_index_def)
  have m: "(if resume (by_index False False True)
            then map_of (resume_entries (initial_run [])) (display_index (sample_ctx 1))
            else None) = None"
    "fst (click_edit (by_index False False True) (sample_ctx 1) missing_ui
            (format_match_value (sample_ctx 1) (match_by (by_index False False True))))
       = Returns False"
    by (simp_all add: ui_defs click_edit_def click_edit_by_index_def context_from_row_indices)
  from dry_run_only_verifies [OF d, of "sample_ctx 1" ?ui "initial_run []" ?cs "[]"] nr
  have a: "ok_rows (process_rows ?opts ?ui ?cs (initial_run [])) = 2"
    "error_rows (process_rows ?opts ?ui ?cs (initial_run [])) = 0"
    "skipped_rows (process_rows ?opts ?ui ?cs (initial_run [])) = 0"
    "map stage (logbook (process_rows ?opts ?ui ?cs (initial_run []))) = [''DRY_RUN'', ''DRY_RUN'']"
    "list_all (\<lambda>a. \<not> touches_form a) (actions (process_rows ?opts ?ui ?cs (initial_run [])))"
    by (simp_all add: Let_def numeral_2_eq_2)
  from dry_run_only_verifies [OF d1, of "sample_ctx 1" "\<lambda>ctx. missing_ui" "initial_run []" "[]" "[]"] m
  have b: "map stage (logbook (snd (process_row (by_index False False True) (sample_ctx 1)
        missing_ui (initial_run [])))) = [''CLICK_EDIT'']"
    "error_rows (snd (process_row (by_index False False True) (sample_ctx 1) missing_ui
        (initial_run []))) = 1"
    by (simp_all add: Let_def initial_run_def)
  show ?thesis
    unfolding run Let_def using a b re by simp
qed

text \<open>
  The claim as stated fails on a dry run with \<open>resume\<close>: of two rows whose edit
  controls are both there, the first is found in the previous log and is skipped,
  so it neither fails nor logs \<open>DRY_RUN\<close>, and the counts are ok 1, error 0, skip 1.
\<close>

theorem dry_run_resume_skips:
  "map_sum id fst (process_autofill ((by_index False True True)\<lparr> end_row := Some 2 \<rparr>)
       sample_df (Rows test_log) None (\<lambda>ctx. smooth_ui))
     = Inr \<lparr> success_count = 1, error_count = 0, skip_count = 1, last_errors = [] \<rparr>
   \<and> map_sum id (\<lambda>r. map stage (logbook (snd r)))
        (process_autofill ((by_index False True True)\<lparr> end_row := Some 2 \<rparr>)
           sample_df (Rows test_log) None (\<lambda>ctx. smooth_ui))
     = Inr [''RESUME_SKIP'', ''DRY_RUN'']
   \<and> fst (click_edit ((by_index False True True)\<lparr> end_row := Some 2 \<rparr>) (sample_ctx 1) smooth_ui
            (format_match_value (sample_ctx 1) ''index'')) = Returns True
   \<and> fst (click_edit ((by_index False True True)\<lparr> end_row := Some 2 \<rparr>) (sample_ctx 2) smooth_ui
            (format_match_value (sample_ctx 2) ''index'')) = Returns True"
  by (simp add: process_autofill_def by_index_def sample_rows_1_2 test_log_entries_1_2
      smooth_ui_def row_defs resume_skip_def row_get_default_def log_row_def
      sample_ctx_indices)

end
